theory Spec2Isabelle
  imports Complex_Main "HOL-Library.AList"
begin

section \<open>Data model\<close>

text \<open>
  Positions are numpy arrays of three floats, orientations are Python lists of four
  numbers \<open>[w, x, y, z]\<close>. Floats are idealised as real numbers throughout.
\<close>

type_synonym vec3 = "real \<times> real \<times> real"
type_synonym quat = "real \<times> real \<times> real \<times> real"

definition vx :: "vec3 \<Rightarrow> real" where "vx v = fst v"
definition vy :: "vec3 \<Rightarrow> real" where "vy v = fst (snd v)"
definition vz :: "vec3 \<Rightarrow> real" where "vz v = snd (snd v)"

definition vadd :: "vec3 \<Rightarrow> vec3 \<Rightarrow> vec3" where
  "vadd a b = (vx a + vx b, vy a + vy b, vz a + vz b)"

definition vsub :: "vec3 \<Rightarrow> vec3 \<Rightarrow> vec3" where
  "vsub a b = (vx a - vx b, vy a - vy b, vz a - vz b)"

text \<open>\<open>np.linalg.norm(v, 2)\<close> of a one-dimensional array: the Euclidean norm of all
  three components.\<close>

definition norm2 :: "vec3 \<Rightarrow> real" where
  "norm2 v = sqrt ((vx v)\<^sup>2 + (vy v)\<^sup>2 + (vz v)\<^sup>2)"

text \<open>Distance of the projections on the horizontal plane (what the specification calls
  the horizontal distance between centers); the source never computes it.\<close>

definition horizontal_distance :: "vec3 \<Rightarrow> vec3 \<Rightarrow> real" where
  "horizontal_distance a b = sqrt ((vx a - vx b)\<^sup>2 + (vy a - vy b)\<^sup>2)"


datatype error = RandomizationError | IndexError | ZeroDivisionError | AssertionError | NameError

text \<open>An XML element as \<open>xml.etree.ElementTree\<close> has it: a tag, the attribute dictionary
  (insertion ordered) and the list of children.\<close>

datatype xml = Element (tag: string) (attrib: "(string \<times> string) list") (children: "xml list")

definition xml_append :: "xml \<Rightarrow> xml \<Rightarrow> xml" where
  "xml_append e c = Element (tag e) (attrib e) (children e @ [c])"

definition xml_set :: "xml \<Rightarrow> string \<Rightarrow> string \<Rightarrow> xml" where
  "xml_set e k v = Element (tag e) (AList.update k v (attrib e)) (children e)"

definition xml_get :: "xml \<Rightarrow> string \<Rightarrow> string option" where
  "xml_get e k = map_of (attrib e) k"

text \<open>The object descriptor (class \<open>MujocoObject\<close>, defined outside these sources): its
  accessors \<open>get_horizontal_radius()\<close>, \<open>get_bottom_offset()\<close> and
  \<open>get_collision(name, site=True)\<close> are the fields.\<close>

record mujoco_object =
  get_horizontal_radius :: real
  get_bottom_offset :: vec3
  get_collision :: "string \<Rightarrow> xml"

section \<open>Random numbers\<close>

text \<open>
  The global numpy generator is a stream of draws from \<open>[0, 1)\<close> together with the
  number of draws consumed so far; every function that draws returns the new count.
  \<open>np.random.uniform(low, high)\<close> of the legacy generator computes
  \<open>low + (high - low) * u\<close> from one draw \<open>u\<close> and does not check \<open>low \<le> high\<close>.
\<close>

type_synonym rng = "nat \<Rightarrow> real"

definition valid_rng :: "rng \<Rightarrow> bool" where
  "valid_rng rnd = (\<forall>i. 0 \<le> rnd i \<and> rnd i < 1)"

definition uniform :: "rng \<Rightarrow> real \<Rightarrow> real \<Rightarrow> nat \<Rightarrow> real \<times> nat" where
  "uniform rnd low high k = (low + (high - low) * rnd k, Suc k)"

section \<open>UniformRandomPegsSampler\<close>

text \<open>The attributes set by \<open>__init__\<close>.\<close>

record sampler_config =
  x_range :: "(real \<times> real) option"
  y_range :: "(real \<times> real) option"
  z_range :: "(real \<times> real) option"
  ensure_object_boundary_in_range :: bool
  z_rotation :: bool

text \<open>The sampler after its configuration phase, which adds the descriptor list, the origin of the
  surface and its size.\<close>

record sampler = sampler_config +
  mujoco_objects :: "mujoco_object list"
  table_top_offset :: vec3
  table_size :: vec3

definition UniformRandomPegsSampler :: "(real \<times> real) option \<Rightarrow> (real \<times> real) option \<Rightarrow>
    (real \<times> real) option \<Rightarrow> bool \<Rightarrow> bool \<Rightarrow> sampler_config" where
  "UniformRandomPegsSampler xr yr zr ensure zrot =
     \<lparr>x_range = xr, y_range = yr, z_range = zr,
      ensure_object_boundary_in_range = ensure, z_rotation = zrot\<rparr>"

text \<open>Modelled from the spec: \<open>ObjectPositionSampler.setup\<close> (module
  \<open>table_top_task\<close>) is not among the sources. The configuration phase stores the
  descriptor list, \<open>table_top_offset\<close> and the surface size on the sampler and changes
  nothing else.\<close>

definition sampler_setup :: "sampler_config \<Rightarrow> mujoco_object list \<Rightarrow> vec3 \<Rightarrow> vec3 \<Rightarrow> sampler" where
  "sampler_setup c objs offset tsize =
     \<lparr>x_range = x_range c, y_range = y_range c, z_range = z_range c,
      ensure_object_boundary_in_range = ensure_object_boundary_in_range c,
      z_rotation = z_rotation c,
      mujoco_objects = objs, table_top_offset = offset, table_size = tsize\<rparr>"

text \<open>The interval an axis is sampled from, before the draw: the configured or default
  range, ordered by \<open>min\<close> and \<open>max\<close>, shrunk by the radius when the flag is set.\<close>

definition shrink :: "sampler \<Rightarrow> real \<times> real \<Rightarrow> real \<Rightarrow> real \<times> real" where
  "shrink s r object_horizontal_radius =
     (let minimum = min (fst r) (snd r);
          maximum = max (fst r) (snd r)
      in if ensure_object_boundary_in_range s
         then (minimum + object_horizontal_radius, maximum - object_horizontal_radius)
         else (minimum, maximum))"

definition active_x_range :: "sampler \<Rightarrow> real \<times> real" where
  "active_x_range s =
     (case x_range s of None \<Rightarrow> (- vx (table_size s) / 2, vx (table_size s) / 2) | Some r \<Rightarrow> r)"

definition active_y_range :: "sampler \<Rightarrow> real \<times> real" where
  "active_y_range s =
     (case y_range s of None \<Rightarrow> (- vx (table_size s) / 2, vx (table_size s) / 2) | Some r \<Rightarrow> r)"

definition active_z_range :: "sampler \<Rightarrow> real \<times> real" where
  "active_z_range s = (case z_range s of None \<Rightarrow> (0, 1) | Some r \<Rightarrow> r)"

definition sample_x :: "sampler \<Rightarrow> rng \<Rightarrow> real \<Rightarrow> nat \<Rightarrow> real \<times> nat" where
  "sample_x s rnd object_horizontal_radius k =
     (let (minimum, maximum) = shrink s (active_x_range s) object_horizontal_radius
      in uniform rnd minimum maximum k)"

definition sample_y :: "sampler \<Rightarrow> rng \<Rightarrow> real \<Rightarrow> nat \<Rightarrow> real \<times> nat" where
  "sample_y s rnd object_horizontal_radius k =
     (let (minimum, maximum) = shrink s (active_y_range s) object_horizontal_radius
      in uniform rnd minimum maximum k)"

definition sample_z :: "sampler \<Rightarrow> rng \<Rightarrow> real \<Rightarrow> nat \<Rightarrow> real \<times> nat" where
  "sample_z s rnd object_horizontal_radius k =
     (let (minimum, maximum) = shrink s (active_z_range s) object_horizontal_radius
      in uniform rnd minimum maximum k)"

text \<open>Shorthand for the ordered ends of the active ranges, \<open>min(x_range)\<close> and
  \<open>max(x_range)\<close>, and for the sampled center of a placed object: its position taken back
  to the frame of the surface, \<open>pos - table_top_offset + bottom_offset\<close>.\<close>

abbreviation x_lo :: "sampler \<Rightarrow> real" where
  "x_lo s \<equiv> min (fst (active_x_range s)) (snd (active_x_range s))"

abbreviation x_hi :: "sampler \<Rightarrow> real" where
  "x_hi s \<equiv> max (fst (active_x_range s)) (snd (active_x_range s))"

abbreviation y_lo :: "sampler \<Rightarrow> real" where
  "y_lo s \<equiv> min (fst (active_y_range s)) (snd (active_y_range s))"

abbreviation y_hi :: "sampler \<Rightarrow> real" where
  "y_hi s \<equiv> max (fst (active_y_range s)) (snd (active_y_range s))"

abbreviation z_lo :: "sampler \<Rightarrow> real" where
  "z_lo s \<equiv> min (fst (active_z_range s)) (snd (active_z_range s))"

abbreviation z_hi :: "sampler \<Rightarrow> real" where
  "z_hi s \<equiv> max (fst (active_z_range s)) (snd (active_z_range s))"

abbreviation center_x :: "sampler \<Rightarrow> mujoco_object \<Rightarrow> vec3 \<Rightarrow> real" where
  "center_x s obj pos \<equiv> vx pos - vx (table_top_offset s) + vx (get_bottom_offset obj)"

abbreviation center_y :: "sampler \<Rightarrow> mujoco_object \<Rightarrow> vec3 \<Rightarrow> real" where
  "center_y s obj pos \<equiv> vy pos - vy (table_top_offset s) + vy (get_bottom_offset obj)"

definition sample_quat :: "sampler \<Rightarrow> rng \<Rightarrow> nat \<Rightarrow> quat \<times> nat" where
  "sample_quat s rnd k =
     (if z_rotation s
      then (let (rot_angle, k') = uniform rnd 0 (2 * pi) k
            in ((cos (rot_angle / 2), 0, 0, sin (rot_angle / 2)), k'))
      else ((1, 0, 0, 0), k))"

text \<open>The inner \<open>for pos2, r in placed_objects\<close> loop: the candidate is invalid as soon as
  one placed object is both within the sum of the radii (norm of the full position
  difference) and closer than 0.021 in height.\<close>

fun location_valid :: "vec3 \<Rightarrow> real \<Rightarrow> (vec3 \<times> real) list \<Rightarrow> bool" where
  "location_valid pos horizontal_radius [] = True"
| "location_valid pos horizontal_radius ((pos2, r) # rest) =
     (if norm2 (vsub pos pos2) \<le> r + horizontal_radius \<and> \<bar>vz pos - vz pos2\<bar> < 0.021
      then False
      else location_valid pos horizontal_radius rest)"

text \<open>One candidate: three draws (x, y, then z with the fixed shrink 0.01) and the
  candidate position.\<close>

definition candidate :: "sampler \<Rightarrow> rng \<Rightarrow> mujoco_object \<Rightarrow> nat \<Rightarrow> vec3 \<times> nat" where
  "candidate s rnd obj_mjcf k =
     (let (object_x, k1) = sample_x s rnd (get_horizontal_radius obj_mjcf) k;
          (object_y, k2) = sample_y s rnd (get_horizontal_radius obj_mjcf) k1;
          (object_z, k3) = sample_z s rnd 0.01 k2
      in (vadd (vsub (table_top_offset s) (get_bottom_offset obj_mjcf))
               (object_x, object_y, object_z), k3))"

text \<open>The retry loop \<open>for i in range(5000)\<close>, with the number of iterations left as
  first counter. It yields the accepted position and orientation, or \<open>None\<close> when
  \<open>success\<close> is still false after the last iteration.\<close>

fun attempts :: "sampler \<Rightarrow> rng \<Rightarrow> mujoco_object \<Rightarrow> (vec3 \<times> real) list \<Rightarrow> nat \<Rightarrow> nat \<Rightarrow>
    (vec3 \<times> quat) option \<times> nat" where
  "attempts s rnd obj_mjcf placed_objects 0 k = (None, k)"
| "attempts s rnd obj_mjcf placed_objects (Suc n) k =
     (let (pos, k3) = candidate s rnd obj_mjcf k
      in if location_valid pos (get_horizontal_radius obj_mjcf) placed_objects
         then (let (quat, k4) = sample_quat s rnd k3 in (Some (pos, quat), k4))
         else attempts s rnd obj_mjcf placed_objects n k3)"

text \<open>The loop over the descriptors, carrying \<open>placed_objects\<close>, \<open>pos_arr\<close> and
  \<open>quat_arr\<close>; the exception leaves the loop at once.\<close>

fun place_all :: "sampler \<Rightarrow> rng \<Rightarrow> mujoco_object list \<Rightarrow> (vec3 \<times> real) list \<Rightarrow> vec3 list \<Rightarrow>
    quat list \<Rightarrow> nat \<Rightarrow> (error + vec3 list \<times> quat list) \<times> nat" where
  "place_all s rnd [] placed_objects pos_arr quat_arr k = (Inr (pos_arr, quat_arr), k)"
| "place_all s rnd (obj_mjcf # objs) placed_objects pos_arr quat_arr k =
     (case attempts s rnd obj_mjcf placed_objects 5000 k of
        (None, k') \<Rightarrow> (Inl RandomizationError, k')
      | (Some (pos, quat), k') \<Rightarrow>
          place_all s rnd objs (placed_objects @ [(pos, get_horizontal_radius obj_mjcf)])
            (pos_arr @ [pos]) (quat_arr @ [quat]) k')"

definition sample :: "sampler \<Rightarrow> rng \<Rightarrow> nat \<Rightarrow> (error + vec3 list \<times> quat list) \<times> nat" where
  "sample s rnd k = place_all s rnd (mujoco_objects s) [] [] [] k"

section \<open>PegsTask: composing the scene and placing the objects\<close>

text \<open>The children of the world body. The object fragments appended by \<open>merge_objects\<close>
  are the same element objects as the entries of \<open>self.objects\<close>, so the world body
  refers to them by their index in that list; everything merged before is a plain node.\<close>

datatype wb_child = Node xml | ObjectRef nat

record pegs_task =
  shelf_offset :: vec3
  shelf_size :: vec3
  worldbody :: "wb_child list"
  asset :: xml
  n_objects :: nat
  task_objects :: "(string \<times> mujoco_object) list"
  objects :: "xml list"
  max_horizontal_radius :: real
  initializer :: sampler

text \<open>Modelled from the spec: the element constructor \<open>joint\<close> of \<open>model_util\<close> is not
  among the sources. It builds the joint node attached to an object, carrying the name,
  the joint type and the damping constant as attributes.\<close>

definition joint :: "string \<Rightarrow> string \<Rightarrow> string \<Rightarrow> xml" where
  "joint name jtype damping =
     Element ''joint'' [(''name'', name), (''type'', jtype), (''damping'', damping)] []"

text \<open>The node that \<open>merge_objects\<close> builds for one entry (name, descriptor) of the
  dictionary: the collision fragment with the free joint appended as its last child.\<close>

definition fragment :: "string \<times> mujoco_object \<Rightarrow> xml" where
  "fragment no = xml_append (get_collision (snd no) (fst no)) (joint (fst no) ''free'' ''0.0005'')"

text \<open>The body of the loop of \<open>merge_objects\<close>. \<open>merge_asset\<close> belongs to the base class
  \<open>MujocoXML\<close> and is a parameter; the field \<open>task_objects\<close> is the ordered dictionary
  \<open>self.mujoco_objects\<close>, a list of pairs in insertion order.\<close>

fun merge_objects_loop :: "(xml \<Rightarrow> mujoco_object \<Rightarrow> xml) \<Rightarrow> (string \<times> mujoco_object) list \<Rightarrow>
    pegs_task \<Rightarrow> pegs_task" where
  "merge_objects_loop merge_asset [] t = t"
| "merge_objects_loop merge_asset ((obj_name, obj_mjcf) # rest) t =
     (let t1 = t\<lparr>asset := merge_asset (asset t) obj_mjcf\<rparr>;
          obj = xml_append (get_collision obj_mjcf obj_name) (joint obj_name ''free'' ''0.0005'');
          t2 = t1\<lparr>objects := objects t1 @ [obj],
                  worldbody := worldbody t1 @ [ObjectRef (length (objects t1))]\<rparr>
      in merge_objects_loop merge_asset rest
           (t2\<lparr>max_horizontal_radius :=
                 max (max_horizontal_radius t2) (get_horizontal_radius obj_mjcf)\<rparr>))"

definition merge_objects :: "(xml \<Rightarrow> mujoco_object \<Rightarrow> xml) \<Rightarrow> (string \<times> mujoco_object) list \<Rightarrow>
    pegs_task \<Rightarrow> pegs_task" where
  "merge_objects merge_asset mujoco_objs t =
     merge_objects_loop merge_asset mujoco_objs
       (t\<lparr>n_objects := length mujoco_objs, task_objects := mujoco_objs, objects := [],
           max_horizontal_radius := 0\<rparr>)"

text \<open>\<open>PegsTask.__init__\<close> from the state left by \<open>merge_arena\<close> and \<open>merge_robot\<close>
  (the argument \<open>t\<close>, of which only the shelf, the world body and the assets are read):
  the objects are merged and the initializer, the default sampler when none is given, is
  configured with the descriptors in the order of the dictionary.\<close>

definition PegsTask :: "(xml \<Rightarrow> mujoco_object \<Rightarrow> xml) \<Rightarrow> pegs_task \<Rightarrow>
    (string \<times> mujoco_object) list \<Rightarrow> sampler_config option \<Rightarrow> pegs_task" where
  "PegsTask merge_asset t mujoco_objs init =
     (let t' = merge_objects merge_asset mujoco_objs t;
          c = (case init of None \<Rightarrow> UniformRandomPegsSampler None None None True True
               | Some c \<Rightarrow> c);
          mjcfs = map snd (task_objects t')
      in t'\<lparr>initializer := sampler_setup c mjcfs (shelf_offset t') (shelf_size t')\<rparr>)"

definition vec_list :: "vec3 \<Rightarrow> real list" where
  "vec_list v = [vx v, vy v, vz v]"

definition quat_list :: "quat \<Rightarrow> real list" where
  "quat_list q = (case q of (w, x, y, z) \<Rightarrow> [w, x, y, z])"

text \<open>The loop of \<open>place_objects\<close> over \<open>range(len(self.objects))\<close>. \<open>array_to_string\<close>
  comes from the utilities and is a parameter. Reading \<open>pos_arr[i]\<close> or \<open>quat_arr[i]\<close>
  beyond the end raises \<open>IndexError\<close>.\<close>

fun set_poses :: "(real list \<Rightarrow> string) \<Rightarrow> vec3 list \<Rightarrow> quat list \<Rightarrow> nat list \<Rightarrow> pegs_task \<Rightarrow>
    error + pegs_task" where
  "set_poses array_to_string pos_arr quat_arr [] t = Inr t"
| "set_poses array_to_string pos_arr quat_arr (i # rest) t =
     (if i < length pos_arr \<and> i < length quat_arr
      then set_poses array_to_string pos_arr quat_arr rest
             (t\<lparr>objects := (objects t)
                  [i := xml_set (xml_set (objects t ! i) ''pos''
                                   (array_to_string (vec_list (pos_arr ! i))))
                          ''quat'' (array_to_string (quat_list (quat_arr ! i)))]\<rparr>)
      else Inl IndexError)"

definition place_objects :: "(real list \<Rightarrow> string) \<Rightarrow> rng \<Rightarrow> pegs_task \<Rightarrow> nat \<Rightarrow>
    (error + pegs_task) \<times> nat" where
  "place_objects array_to_string rnd t k =
     (case sample (initializer t) rnd k of
        (Inl e, k') \<Rightarrow> (Inl e, k')
      | (Inr (pos_arr, quat_arr), k') \<Rightarrow>
          (set_poses array_to_string pos_arr quat_arr [0..<length (objects t)] t, k'))"

section \<open>The evaluation grid of SawyerAssembly\<close>

text \<open>Bounds of one axis: low, high and the number of grid points.\<close>

type_synonym bounds = "real \<times> real \<times> nat"
type_synonym grid = "real list \<times> real list \<times> real list"

definition grid_bounds_for_eval_mode :: "bounds \<times> bounds \<times> bounds" where
  "grid_bounds_for_eval_mode = ((- 0.3, 0.2, 3), (- 0.3, 0.2, 3), (0, 2 * pi, 3))"

text \<open>\<open>np.meshgrid(x, y, z)\<close> with the default indexing followed by \<open>ravel()\<close> on each of
  the three arrays: the arrays have shape (len y, len x, len z) and are read row by row,
  the last index running fastest.\<close>

definition meshgrid_ravel :: "real list \<Rightarrow> real list \<Rightarrow> real list \<Rightarrow> grid" where
  "meshgrid_ravel xs ys zs =
     (concat (map (\<lambda>y. concat (map (\<lambda>x. map (\<lambda>z. x) zs) xs)) ys),
      concat (map (\<lambda>y. concat (map (\<lambda>x. map (\<lambda>z. y) zs) xs)) ys),
      concat (map (\<lambda>y. concat (map (\<lambda>x. map (\<lambda>z. z) zs) xs)) ys))"

text \<open>Half the grid spacing of an axis; the division raises when the count is zero.\<close>

definition perturb_size :: "bounds \<Rightarrow> error + real" where
  "perturb_size b =
     (case b of (low, high, n) \<Rightarrow>
        if n = 0 then Inl ZeroDivisionError else Inr (((high - low) / real n) / 2))"

text \<open>The base grid point read at schedule index \<open>t\<close>: the entries of the three
  flattened arrays at \<open>g_ind = t % grid_length\<close>.\<close>

definition base_point :: "grid \<Rightarrow> nat \<Rightarrow> real \<times> real \<times> real" where
  "base_point g t =
     (fst g ! (t mod length (fst g)), fst (snd g) ! (t mod length (fst g)),
      snd (snd g) ! (t mod length (fst g)))"

text \<open>The body of the loop \<open>for t in range(round_robin_period)\<close>: the grid point at index
  \<open>t % grid_length\<close>, with three draws added when perturbation sizes are given.\<close>

definition schedule_entry :: "grid \<Rightarrow> (real \<times> real \<times> real) option \<Rightarrow> rng \<Rightarrow> nat \<Rightarrow> nat \<Rightarrow>
    (error + real \<times> real \<times> real) \<times> nat" where
  "schedule_entry g perturb rnd t k =
     (case g of (x_grid, y_grid, z_rot_grid) \<Rightarrow>
        let grid_length = length x_grid in
        if grid_length = 0 then (Inl ZeroDivisionError, k)
        else
          let g_ind = t mod grid_length;
              x = x_grid ! g_ind; y = y_grid ! g_ind; z = z_rot_grid ! g_ind
          in (case perturb of
                None \<Rightarrow> (Inr (x, y, z), k)
              | Some (x_size, y_size, z_size) \<Rightarrow>
                  let (dx, k1) = uniform rnd (- x_size) x_size k;
                      (dy, k2) = uniform rnd (- y_size) y_size k1;
                      (dz, k3) = uniform rnd (- z_size) z_size k2
                  in (Inr (x + dx, y + dy, z + dz), k3)))"

fun fill_schedule :: "grid \<Rightarrow> (real \<times> real \<times> real) option \<Rightarrow> rng \<Rightarrow> nat list \<Rightarrow> nat \<Rightarrow>
    (error + (real \<times> real \<times> real) list) \<times> nat" where
  "fill_schedule g perturb rnd [] k = (Inr [], k)"
| "fill_schedule g perturb rnd (t # ts) k =
     (case schedule_entry g perturb rnd t k of
        (Inl e, k') \<Rightarrow> (Inl e, k')
      | (Inr p, k') \<Rightarrow>
          (case fill_schedule g perturb rnd ts k' of
             (Inl e, k'') \<Rightarrow> (Inl e, k'')
           | (Inr ps, k'') \<Rightarrow> (Inr (p # ps), k'')))"

text \<open>Lines 181 to 216 of \<open>_get_placement_initializer_for_eval_mode\<close>: the assertion,
  the grids, the perturbation sizes and the loop that fills the local arrays
  \<open>final_x_grid\<close>, \<open>final_y_grid\<close> and \<open>final_z_grid\<close>, which are the result here.
  The helper \<open>range_to_uniform_grid\<close> of \<open>mjcf_utils\<close> is the parameter \<open>grid_of\<close>, and
  the bounds are what \<open>_grid_bounds_for_eval_mode\<close> returns.\<close>

definition final_grids ::
    "(real \<Rightarrow> real \<Rightarrow> nat \<Rightarrow> real list) \<Rightarrow> bounds \<times> bounds \<times> bounds \<Rightarrow> bool \<Rightarrow> bool \<Rightarrow> rng \<Rightarrow> nat \<Rightarrow>
     (error + grid) \<times> nat" where
  "final_grids grid_of bnds eval_mode perturb_evals rnd k =
     (if \<not> eval_mode then (Inl AssertionError, k)
      else case bnds of (x_bounds, y_bounds, z_rot_bounds) \<Rightarrow>
        let x_grid = grid_of (fst x_bounds) (fst (snd x_bounds)) (snd (snd x_bounds));
            y_grid = grid_of (fst y_bounds) (fst (snd y_bounds)) (snd (snd y_bounds));
            z_rot = grid_of (fst z_rot_bounds) (fst (snd z_rot_bounds)) (snd (snd z_rot_bounds));
            g = meshgrid_ravel x_grid y_grid z_rot;
            grid_length = length (fst g)
        in if perturb_evals
           then (case perturb_size x_bounds of
                   Inl e \<Rightarrow> (Inl e, k)
                 | Inr x_size \<Rightarrow>
                     (case perturb_size y_bounds of
                        Inl e \<Rightarrow> (Inl e, k)
                      | Inr y_size \<Rightarrow>
                          (case perturb_size z_rot_bounds of
                             Inl e \<Rightarrow> (Inl e, k)
                           | Inr z_size \<Rightarrow>
                               (case fill_schedule g (Some (x_size, y_size, z_size)) rnd
                                       [0..<grid_length * 100] k of
                                  (Inl e, k') \<Rightarrow> (Inl e, k')
                                | (Inr ps, k') \<Rightarrow>
                                    (Inr (map fst ps, map (fst \<circ> snd) ps, map (snd \<circ> snd) ps),
                                     k')))))
           else (case fill_schedule g None rnd [0..<grid_length] k of
                   (Inl e, k') \<Rightarrow> (Inl e, k')
                 | (Inr ps, k') \<Rightarrow>
                     (Inr (map fst ps, map (fst \<circ> snd) ps, map (snd \<circ> snd) ps), k')))"

text \<open>The whole of \<open>_get_placement_initializer_for_eval_mode\<close>. After the loop, line 218
  evaluates the name \<open>RoundRobinSampler\<close> to construct the sampler from the three arrays.
  The module imports only \<open>TableTopTask\<close> and \<open>UniformRandomSampler\<close> from the tasks
  package and binds that name nowhere, so the evaluation raises \<open>NameError\<close>: the arrays
  are lost and \<open>self.placement_initializer\<close> is never assigned. A returned \<open>Inr\<close> would
  be the arrays handed over as \<open>x_range\<close>, \<open>y_range\<close> and \<open>z_rotation\<close>; no run
  produces one.\<close>

definition get_placement_initializer_for_eval_mode ::
    "(real \<Rightarrow> real \<Rightarrow> nat \<Rightarrow> real list) \<Rightarrow> bounds \<times> bounds \<times> bounds \<Rightarrow> bool \<Rightarrow> bool \<Rightarrow> rng \<Rightarrow> nat \<Rightarrow>
     (error + grid) \<times> nat" where
  "get_placement_initializer_for_eval_mode grid_of bnds eval_mode perturb_evals rnd k =
     (case final_grids grid_of bnds eval_mode perturb_evals rnd k of
        (Inl e, k') \<Rightarrow> (Inl e, k')
      | (Inr final, k') \<Rightarrow> (Inl NameError, k'))"

section \<open>Example configurations\<close>

text \<open>Two thin pegs on a table of size 0.8 under the default sampler (no range set,
  boundary flag and z-rotation on), with a stream of draws that puts both pegs at the
  centre of the table, the second one 0.02 above the first.\<close>

definition thin_peg :: mujoco_object where
  "thin_peg = \<lparr>get_horizontal_radius = 0.005, get_bottom_offset = (0, 0, 0),
     get_collision = (\<lambda>name. Element ''body'' [(''name'', name)] [])\<rparr>"

definition default_sampler :: "mujoco_object list \<Rightarrow> sampler" where
  "default_sampler objs =
     sampler_setup (UniformRandomPegsSampler None None None True True) objs (0, 0, 0) (0.8, 0.8, 0.8)"

definition stacking_draws :: rng where
  "stacking_draws = (\<lambda>i. if i \<in> {0, 1, 4, 5} then 1 / 2 else if i = 6 then 1 / 49 else 0)"

text \<open>Further example values: a peg of radius 0.05, a sampler whose x range
  \<open>[-0.01, 0.01]\<close> is narrower than that peg, a table that is not square, a sampler with
  an inverted and an empty range, a sampler that pins every candidate to the origin, one
  that lets only x vary over \<open>[0, 1]\<close> with a stream of draws whose seventh draw is 1/2,
  and constant streams of draws.\<close>

definition wide_peg :: mujoco_object where
  "wide_peg = \<lparr>get_horizontal_radius = 0.05, get_bottom_offset = (0, 0, 0),
     get_collision = (\<lambda>name. Element ''body'' [(''name'', name)] [])\<rparr>"

definition narrow_sampler :: "mujoco_object list \<Rightarrow> sampler" where
  "narrow_sampler objs =
     sampler_setup (UniformRandomPegsSampler (Some (- 0.01, 0.01)) None None True True) objs
       (0, 0, 0) (0.8, 0.8, 0.8)"


definition inverted_sampler :: "mujoco_object list \<Rightarrow> sampler" where
  "inverted_sampler objs =
     sampler_setup (UniformRandomPegsSampler (Some (0.2, - 0.3)) (Some (0.1, 0.1)) None False False)
       objs (0, 0, 0) (0.8, 0.8, 0.8)"

definition pinned_sampler :: "mujoco_object list \<Rightarrow> sampler" where
  "pinned_sampler objs =
     sampler_setup (UniformRandomPegsSampler (Some (0, 0)) (Some (0, 0)) (Some (0, 0)) False False)
       objs (0, 0, 0) (0.8, 0.8, 0.8)"

definition half_draws :: rng where
  "half_draws = (\<lambda>i. 1 / 2)"


definition lane_sampler :: "mujoco_object list \<Rightarrow> sampler" where
  "lane_sampler objs =
     sampler_setup (UniformRandomPegsSampler (Some (0, 1)) (Some (0, 0)) (Some (0, 0)) False False)
       objs (0, 0, 0) (0.8, 0.8, 0.8)"

definition reroll_draws :: rng where
  "reroll_draws = (\<lambda>i. if i = 6 then 1 / 2 else 0)"

definition empty_world :: pegs_task where
  "empty_world = \<lparr>shelf_offset = (0, 0, 0), shelf_size = (0.8, 0.8, 0.8), worldbody = [],
     asset = Element ''asset'' [] [], n_objects = 0, task_objects = [], objects = [],
     max_horizontal_radius = 0, initializer = default_sampler []\<rparr>"

definition keep_asset :: "xml \<Rightarrow> mujoco_object \<Rightarrow> xml" where
  "keep_asset a obj = a"


section \<open>Auxiliary facts\<close>

subsection \<open>Norms and draws\<close>

lemma norm2_nonneg: "0 \<le> norm2 v"
  by (simp add: norm2_def)

lemma norm2_le_iff: "norm2 v \<le> c \<longleftrightarrow> 0 \<le> c \<and> (vx v)\<^sup>2 + (vy v)\<^sup>2 + (vz v)\<^sup>2 \<le> c\<^sup>2"
proof (cases "0 \<le> c")
  case True
  then show ?thesis
    unfolding norm2_def
    by (metis abs_of_nonneg real_sqrt_abs real_sqrt_le_iff)
next
  case False
  then show ?thesis using norm2_nonneg [of v] by simp
qed

lemma norm2_vsub_commute: "norm2 (vsub a b) = norm2 (vsub b a)"
  by (simp add: norm2_def vsub_def vx_def vy_def vz_def power2_commute)

lemma candidate_snd: "snd (candidate s rnd obj k) = k + 3"
  by (simp add: candidate_def sample_x_def sample_y_def sample_z_def uniform_def
      split: prod.splits)

lemma sample_quat_snd: "snd (sample_quat s rnd k) = (if z_rotation s then Suc k else k)"
  by (simp add: sample_quat_def uniform_def)

subsection \<open>The retry loop and the loop over the descriptors\<close>

lemma location_valid_iff:
  "location_valid pos hr placed \<longleftrightarrow>
     (\<forall>(pos2, r) \<in> set placed. \<not> (norm2 (vsub pos pos2) \<le> r + hr \<and> \<bar>vz pos - vz pos2\<bar> < 0.021))"
proof (induction placed)
  case Nil
  then show ?case by simp
next
  case (Cons a placed)
  obtain pos2 r where a: "a = (pos2, r)" by (cases a)
  show ?case unfolding a using Cons.IH by (simp del: split_paired_All)
qed

lemma attempts_Some:
  "attempts s rnd obj placed n k = (Some (pos, q), k') \<Longrightarrow>
     \<exists>i<n. pos = fst (candidate s rnd obj (k + 3 * i)) \<and>
        location_valid pos (get_horizontal_radius obj) placed \<and>
        (\<forall>j<i. \<not> location_valid (fst (candidate s rnd obj (k + 3 * j))) (get_horizontal_radius obj) placed) \<and>
        (q, k') = sample_quat s rnd (k + 3 * i + 3)"
proof (induction n arbitrary: k)
  case 0
  then show ?case by simp
next
  case (Suc n)
  obtain p k3 where c: "candidate s rnd obj k = (p, k3)" by (cases "candidate s rnd obj k")
  have k3: "k3 = k + 3" using candidate_snd [of s rnd obj k] c by simp
  show ?case
  proof (cases "location_valid p (get_horizontal_radius obj) placed")
    case True
    with Suc.prems c k3 have "pos = p" "(q, k') = sample_quat s rnd (k + 3)"
      by (auto split: prod.splits)
    with True c show ?thesis by (intro exI [of _ 0]) simp
  next
    case False
    with Suc.prems c k3 have "attempts s rnd obj placed n (k + 3) = (Some (pos, q), k')"
      by simp
    from Suc.IH [OF this] obtain i where i: "i < n"
      "pos = fst (candidate s rnd obj (k + 3 + 3 * i))"
      "location_valid pos (get_horizontal_radius obj) placed"
      "\<forall>j<i. \<not> location_valid (fst (candidate s rnd obj (k + 3 + 3 * j))) (get_horizontal_radius obj) placed"
      "(q, k') = sample_quat s rnd (k + 3 + 3 * i + 3)"
      by blast
    have "\<forall>j<Suc i. \<not> location_valid (fst (candidate s rnd obj (k + 3 * j))) (get_horizontal_radius obj) placed"
    proof (intro allI impI)
      fix j assume "j < Suc i"
      show "\<not> location_valid (fst (candidate s rnd obj (k + 3 * j))) (get_horizontal_radius obj) placed"
      proof (cases j)
        case 0
        then show ?thesis using False c by simp
      next
        case (Suc j')
        with \<open>j < Suc i\<close> have "j' < i" by simp
        with i(4) have "\<not> location_valid (fst (candidate s rnd obj (k + 3 + 3 * j'))) (get_horizontal_radius obj) placed"
          by blast
        then show ?thesis using Suc by (simp add: add.assoc)
      qed
    qed
    with i show ?thesis
      by (intro exI [of _ "Suc i"]) (simp add: add.assoc add.commute add.left_commute)
  qed
qed

lemma attempts_None:
  "(\<forall>i<n. \<not> location_valid (fst (candidate s rnd obj (k + 3 * i))) (get_horizontal_radius obj) placed) \<Longrightarrow>
     attempts s rnd obj placed n k = (None, k + 3 * n)"
proof (induction n arbitrary: k)
  case 0
  then show ?case by simp
next
  case (Suc n)
  obtain p k3 where c: "candidate s rnd obj k = (p, k3)" by (cases "candidate s rnd obj k")
  have k3: "k3 = k + 3" using candidate_snd [of s rnd obj k] c by simp
  from Suc.prems have "\<not> location_valid (fst (candidate s rnd obj (k + 3 * 0))) (get_horizontal_radius obj) placed"
    by blast
  then have nv: "\<not> location_valid p (get_horizontal_radius obj) placed" using c by simp
  have "\<forall>i<n. \<not> location_valid (fst (candidate s rnd obj (k + 3 + 3 * i))) (get_horizontal_radius obj) placed"
  proof (intro allI impI)
    fix i assume "i < n"
    then have "Suc i < Suc n" by simp
    with Suc.prems have "\<not> location_valid (fst (candidate s rnd obj (k + 3 * Suc i))) (get_horizontal_radius obj) placed"
      by blast
    then show "\<not> location_valid (fst (candidate s rnd obj (k + 3 + 3 * i))) (get_horizontal_radius obj) placed"
      by (simp add: add.assoc)
  qed
  from Suc.IH [OF this] have "attempts s rnd obj placed n (k + 3) = (None, k + 3 + 3 * n)" .
  with nv c k3 show ?case by simp
qed

lemma attempts_first:
  "location_valid (fst (candidate s rnd obj k)) (get_horizontal_radius obj) placed \<Longrightarrow>
     attempts s rnd obj placed (Suc n) k =
       (Some (fst (candidate s rnd obj k), fst (sample_quat s rnd (k + 3))),
        snd (sample_quat s rnd (k + 3)))"
  using candidate_snd [of s rnd obj k]
  by (auto split: prod.splits)

lemma place_all_Inr:
  "place_all s rnd objs placed ps qs k = (Inr (ps', qs'), k') \<Longrightarrow>
     \<exists>newp newq. ps' = ps @ newp \<and> qs' = qs @ newq \<and>
        length newp = length objs \<and> length newq = length objs \<and>
        (\<forall>i<length objs. \<exists>j.
            newp ! i = fst (candidate s rnd (objs ! i) j) \<and>
            newq ! i = fst (sample_quat s rnd (j + 3)) \<and>
            location_valid (newp ! i) (get_horizontal_radius (objs ! i))
              (placed @ zip (take i newp) (map get_horizontal_radius (take i objs))))"
proof (induction objs arbitrary: placed ps qs k)
  case Nil
  then show ?case by simp
next
  case (Cons obj rest)
  let ?r = "get_horizontal_radius obj"
  obtain res k1 where a: "attempts s rnd obj placed 5000 k = (res, k1)"
    by (cases "attempts s rnd obj placed 5000 k")
  from Cons.prems a obtain pos quat where res: "res = Some (pos, quat)"
    by (cases res) auto
  from Cons.prems a res
  have rec: "place_all s rnd rest (placed @ [(pos, ?r)]) (ps @ [pos]) (qs @ [quat]) k1
      = (Inr (ps', qs'), k')"
    by simp
  from attempts_Some [OF a [unfolded res]] obtain j where j:
    "pos = fst (candidate s rnd obj (k + 3 * j))"
    "location_valid pos ?r placed"
    "(quat, k1) = sample_quat s rnd (k + 3 * j + 3)"
    by blast
  from Cons.IH [OF rec] obtain newp newq where n:
    "ps' = (ps @ [pos]) @ newp" "qs' = (qs @ [quat]) @ newq"
    "length newp = length rest" "length newq = length rest"
    "\<forall>i<length rest. \<exists>j.
        newp ! i = fst (candidate s rnd (rest ! i) j) \<and>
        newq ! i = fst (sample_quat s rnd (j + 3)) \<and>
        location_valid (newp ! i) (get_horizontal_radius (rest ! i))
          ((placed @ [(pos, ?r)]) @ zip (take i newp) (map get_horizontal_radius (take i rest)))"
    by blast
  have "\<forall>i<length (obj # rest). \<exists>j.
        (pos # newp) ! i = fst (candidate s rnd ((obj # rest) ! i) j) \<and>
        (quat # newq) ! i = fst (sample_quat s rnd (j + 3)) \<and>
        location_valid ((pos # newp) ! i) (get_horizontal_radius ((obj # rest) ! i))
          (placed @ zip (take i (pos # newp)) (map get_horizontal_radius (take i (obj # rest))))"
  proof (intro allI impI)
    fix i assume i: "i < length (obj # rest)"
    show "\<exists>j. (pos # newp) ! i = fst (candidate s rnd ((obj # rest) ! i) j) \<and>
        (quat # newq) ! i = fst (sample_quat s rnd (j + 3)) \<and>
        location_valid ((pos # newp) ! i) (get_horizontal_radius ((obj # rest) ! i))
          (placed @ zip (take i (pos # newp)) (map get_horizontal_radius (take i (obj # rest))))"
    proof (cases i)
      case 0
      have "quat = fst (sample_quat s rnd (k + 3 * j + 3))" using j(3) by (metis fst_conv)
      with j 0 show ?thesis by (intro exI [of _ "k + 3 * j"]) simp
    next
      case (Suc i')
      with i have "i' < length rest" by simp
      with n(5) obtain j' where
        "newp ! i' = fst (candidate s rnd (rest ! i') j')"
        "newq ! i' = fst (sample_quat s rnd (j' + 3))"
        "location_valid (newp ! i') (get_horizontal_radius (rest ! i'))
          ((placed @ [(pos, ?r)]) @ zip (take i' newp) (map get_horizontal_radius (take i' rest)))"
        by blast
      then show ?thesis using Suc by (intro exI [of _ j']) simp
    qed
  qed
  with n show ?case
    by (intro exI [of _ "pos # newp"] exI [of _ "quat # newq"]) simp
qed

lemma place_all_error:
  "place_all s rnd objs placed ps qs k = (Inl e, k') \<Longrightarrow> e = RandomizationError"
proof (induction objs arbitrary: placed ps qs k)
  case Nil
  then show ?case by simp
next
  case (Cons obj rest)
  obtain res k1 where a: "attempts s rnd obj placed 5000 k = (res, k1)"
    by (cases "attempts s rnd obj placed 5000 k")
  show ?case
  proof (cases res)
    case None
    with Cons.prems a show ?thesis by simp
  next
    case (Some pq)
    obtain pos quat where "pq = (pos, quat)" by (cases pq)
    with Cons.prems a Some show ?thesis by (auto dest: Cons.IH)
  qed
qed

lemma sample_Inr:
  assumes "sample s rnd k = (Inr (pos_arr, quat_arr), k')"
  shows "length pos_arr = length (mujoco_objects s)"
    and "length quat_arr = length (mujoco_objects s)"
    and "\<And>i. i < length (mujoco_objects s) \<Longrightarrow> \<exists>j.
            pos_arr ! i = fst (candidate s rnd (mujoco_objects s ! i) j) \<and>
            quat_arr ! i = fst (sample_quat s rnd (j + 3)) \<and>
            location_valid (pos_arr ! i) (get_horizontal_radius (mujoco_objects s ! i))
              (zip (take i pos_arr) (map get_horizontal_radius (take i (mujoco_objects s))))"
  using place_all_Inr [OF assms [unfolded sample_def]] by auto

lemma sample_separated:
  assumes "sample s rnd k = (Inr (pos_arr, quat_arr), k')"
    and "i < j" and "j < length (mujoco_objects s)"
  shows "\<not> (norm2 (vsub (pos_arr ! j) (pos_arr ! i))
              \<le> get_horizontal_radius (mujoco_objects s ! i) + get_horizontal_radius (mujoco_objects s ! j)
            \<and> \<bar>vz (pos_arr ! j) - vz (pos_arr ! i)\<bar> < 0.021)"
proof -
  let ?objs = "mujoco_objects s"
  let ?zs = "zip (take j pos_arr) (map get_horizontal_radius (take j ?objs))"
  have len: "length pos_arr = length ?objs" by (rule sample_Inr(1) [OF assms(1)])
  from sample_Inr(3) [OF assms(1) assms(3)]
  have lv: "location_valid (pos_arr ! j) (get_horizontal_radius (?objs ! j)) ?zs" by blast
  have "i < length ?zs" using assms(2,3) len by simp
  then have "?zs ! i \<in> set ?zs" by (rule nth_mem)
  moreover have "?zs ! i = (pos_arr ! i, get_horizontal_radius (?objs ! i))"
    using assms(2,3) len by simp
  ultimately have "(pos_arr ! i, get_horizontal_radius (?objs ! i)) \<in> set ?zs" by simp
  with lv show ?thesis unfolding location_valid_iff by blast
qed

subsection \<open>The sampled coordinates and orientations\<close>

lemma sample_x_eq:
  "fst (sample_x s rnd r k) =
     fst (shrink s (active_x_range s) r) +
     (snd (shrink s (active_x_range s) r) - fst (shrink s (active_x_range s) r)) * rnd k"
  by (simp add: sample_x_def uniform_def split: prod.splits)

lemma sample_y_eq:
  "fst (sample_y s rnd r k) =
     fst (shrink s (active_y_range s) r) +
     (snd (shrink s (active_y_range s) r) - fst (shrink s (active_y_range s) r)) * rnd k"
  by (simp add: sample_y_def uniform_def split: prod.splits)


lemma affine_between:
  fixes lo hi u :: real
  assumes "0 \<le> u" "u < 1" "lo \<le> hi"
  shows "lo \<le> lo + (hi - lo) * u \<and> lo + (hi - lo) * u \<le> hi"
proof -
  have a: "0 \<le> (hi - lo) * u" using assms by simp
  have "(hi - lo) * u \<le> (hi - lo) * 1"
    using assms by (intro mult_left_mono) auto
  with a show ?thesis by simp
qed

lemma affine_between_inverted:
  fixes lo hi u :: real
  assumes "0 \<le> u" "u < 1" "hi \<le> lo"
  shows "hi \<le> lo + (hi - lo) * u \<and> lo + (hi - lo) * u \<le> lo"
proof -
  have a: "0 \<le> (lo - hi) * u" using assms by simp
  have "(lo - hi) * u \<le> (lo - hi) * 1"
    using assms by (intro mult_left_mono) auto
  with a show ?thesis by (simp add: algebra_simps)
qed




lemma sample_singleton:
  assumes "mujoco_objects s = [obj]"
  shows "sample s rnd k =
     (Inr ([fst (candidate s rnd obj k)], [fst (sample_quat s rnd (k + 3))]),
      snd (sample_quat s rnd (k + 3)))"
proof -
  have n: "(5000::nat) = Suc 4999" by simp
  have v: "location_valid (fst (candidate s rnd obj k)) (get_horizontal_radius obj) []" by simp
  have "attempts s rnd obj [] 5000 k =
       (Some (fst (candidate s rnd obj k), fst (sample_quat s rnd (k + 3))),
        snd (sample_quat s rnd (k + 3)))"
    unfolding n by (rule attempts_first [OF v])
  then show ?thesis by (simp add: sample_def assms)
qed

lemma candidate_vx:
  "vx (fst (candidate s rnd obj k)) =
     vx (table_top_offset s) - vx (get_bottom_offset obj)
       + fst (sample_x s rnd (get_horizontal_radius obj) k)"
  by (simp add: candidate_def vadd_def vsub_def vx_def split: prod.splits)

subsection \<open>Merging and placing\<close>

lemma merge_objects_loop_fields:
  "objects (merge_objects_loop ma ods t) = objects t @ map fragment ods \<and>
   worldbody (merge_objects_loop ma ods t) =
     worldbody t @ map ObjectRef [length (objects t)..<length (objects t) + length ods] \<and>
   max_horizontal_radius (merge_objects_loop ma ods t) =
     fold (\<lambda>no m. max m (get_horizontal_radius (snd no))) ods (max_horizontal_radius t) \<and>
   n_objects (merge_objects_loop ma ods t) = n_objects t \<and>
   task_objects (merge_objects_loop ma ods t) = task_objects t \<and>
   shelf_offset (merge_objects_loop ma ods t) = shelf_offset t \<and>
   shelf_size (merge_objects_loop ma ods t) = shelf_size t \<and>
   initializer (merge_objects_loop ma ods t) = initializer t"
proof (induction ods arbitrary: t)
  case Nil
  then show ?case by simp
next
  case (Cons a ods)
  obtain n obj where a: "a = (n, obj)" by (cases a)
  have u: "[length (objects t)..<Suc (length (objects t) + length ods)]
      = length (objects t) # [Suc (length (objects t))..<Suc (length (objects t) + length ods)]"
    by (rule upt_conv_Cons) simp
  show ?case
    unfolding a by (simp add: Cons.IH Let_def fragment_def u del: upt_Suc)
qed

lemma fold_max_Max:
  fixes m :: real
  shows "fold (\<lambda>x m. max m (f x)) xs m = Max (insert m (f ` set xs))"
proof (induction xs arbitrary: m)
  case Nil
  then show ?case by simp
next
  case (Cons x xs)
  have "Max (insert (max m (f x)) (f ` set xs)) = Max (insert m (insert (f x) (f ` set xs)))"
  proof (cases "f ` set xs = {}")
    case True
    then show ?thesis by (simp add: max.commute)
  next
    case False
    then show ?thesis by (simp add: max.assoc)
  qed
  then show ?case by (simp add: Cons.IH)
qed

lemma set_poses_upt:
  assumes "n = length (objects t)" "n \<le> length ps" "n \<le> length qs"
  shows "\<exists>t'. set_poses a2s ps qs [i..<n] t = Inr t' \<and>
            length (objects t') = n \<and>
            worldbody t' = worldbody t \<and> initializer t' = initializer t \<and>
            max_horizontal_radius t' = max_horizontal_radius t \<and>
            task_objects t' = task_objects t \<and> n_objects t' = n_objects t \<and>
            (\<forall>j<n. objects t' ! j =
               (if i \<le> j
                then xml_set (xml_set (objects t ! j) ''pos'' (a2s (vec_list (ps ! j))))
                       ''quat'' (a2s (quat_list (qs ! j)))
                else objects t ! j))"
  using assms
proof (induction "n - i" arbitrary: i t)
  case 0
  then show ?case by simp
next
  case (Suc d)
  then have i: "i < n" by simp
  let ?t1 = "t\<lparr>objects := (objects t)
      [i := xml_set (xml_set (objects t ! i) ''pos'' (a2s (vec_list (ps ! i))))
              ''quat'' (a2s (quat_list (qs ! i)))]\<rparr>"
  have d: "d = n - Suc i" using Suc.hyps(2) by simp
  have n1: "n = length (objects ?t1)" using Suc.prems(1) by simp
  from Suc.hyps(1) [OF d n1 Suc.prems(2) Suc.prems(3)]
  obtain t' where t': "set_poses a2s ps qs [Suc i..<n] ?t1 = Inr t'"
    "length (objects t') = n" "worldbody t' = worldbody ?t1" "initializer t' = initializer ?t1"
    "max_horizontal_radius t' = max_horizontal_radius ?t1"
    "task_objects t' = task_objects ?t1" "n_objects t' = n_objects ?t1"
    "\<forall>j<n. objects t' ! j =
               (if Suc i \<le> j
                then xml_set (xml_set (objects ?t1 ! j) ''pos'' (a2s (vec_list (ps ! j))))
                       ''quat'' (a2s (quat_list (qs ! j)))
                else objects ?t1 ! j)"
    by blast
  have run: "set_poses a2s ps qs [i..<n] t = Inr t'"
    using i Suc.prems t'(1) by (simp add: upt_conv_Cons)
  have "\<forall>j<n. objects t' ! j =
               (if i \<le> j
                then xml_set (xml_set (objects t ! j) ''pos'' (a2s (vec_list (ps ! j))))
                       ''quat'' (a2s (quat_list (qs ! j)))
                else objects t ! j)"
  proof (intro allI impI)
    fix j assume j: "j < n"
    with t'(8) have e: "objects t' ! j =
               (if Suc i \<le> j
                then xml_set (xml_set (objects ?t1 ! j) ''pos'' (a2s (vec_list (ps ! j))))
                       ''quat'' (a2s (quat_list (qs ! j)))
                else objects ?t1 ! j)" by blast
    show "objects t' ! j =
               (if i \<le> j
                then xml_set (xml_set (objects t ! j) ''pos'' (a2s (vec_list (ps ! j))))
                       ''quat'' (a2s (quat_list (qs ! j)))
                else objects t ! j)"
    proof (cases "j = i")
      case True
      then show ?thesis using e i Suc.prems(1) by simp
    next
      case False
      then show ?thesis using e j Suc.prems(1) by (auto simp: nth_list_update)
    qed
  qed
  with run t' show ?case by simp
qed

lemma xml_get_set_same: "xml_get (xml_set e k v) k = Some v"
  by (simp add: xml_get_def xml_set_def update_conv')

lemma xml_get_set_other: "k \<noteq> k' \<Longrightarrow> xml_get (xml_set e k v) k' = xml_get e k'"
  by (simp add: xml_get_def xml_set_def update_conv')

lemma children_xml_set: "children (xml_set e k v) = children e"
  by (simp add: xml_set_def)

lemma PegsTask_fields:
  "objects (PegsTask ma t0 ods init) = map fragment ods"
  "worldbody (PegsTask ma t0 ods init) = worldbody t0 @ map ObjectRef [0..<length ods]"
  "max_horizontal_radius (PegsTask ma t0 ods init) =
     Max (insert 0 ((\<lambda>no. get_horizontal_radius (snd no)) ` set ods))"
  "n_objects (PegsTask ma t0 ods init) = length ods"
  "task_objects (PegsTask ma t0 ods init) = ods"
  "mujoco_objects (initializer (PegsTask ma t0 ods init)) = map snd ods"
  by (simp_all add: PegsTask_def merge_objects_def merge_objects_loop_fields Let_def
      sampler_setup_def fold_max_Max)

lemma place_objects_aligned:
  assumes "length (mujoco_objects (initializer t)) = length (objects t)"
    and "sample (initializer t) rnd k = (Inr (pos_arr, quat_arr), k')"
  shows "\<exists>t'. place_objects a2s rnd t k = (Inr t', k') \<and>
           length (objects t') = length (objects t) \<and> worldbody t' = worldbody t \<and>
           (\<forall>i<length (objects t). objects t' ! i =
               xml_set (xml_set (objects t ! i) ''pos'' (a2s (vec_list (pos_arr ! i))))
                 ''quat'' (a2s (quat_list (quat_arr ! i))))"
proof -
  have l: "length (objects t) \<le> length pos_arr" "length (objects t) \<le> length quat_arr"
    using sample_Inr(1,2) [OF assms(2)] assms(1) by simp_all
  from set_poses_upt [OF refl l, of a2s 0]
  obtain t' where "set_poses a2s pos_arr quat_arr [0..<length (objects t)] t = Inr t'"
    "length (objects t') = length (objects t)" "worldbody t' = worldbody t"
    "\<forall>j<length (objects t). objects t' ! j =
        xml_set (xml_set (objects t ! j) ''pos'' (a2s (vec_list (pos_arr ! j))))
          ''quat'' (a2s (quat_list (quat_arr ! j)))"
    by auto
  then show ?thesis by (simp add: place_objects_def assms(2))
qed

lemma place_objects_error:
  "sample (initializer t) rnd k = (Inl e, k') \<Longrightarrow> place_objects a2s rnd t k = (Inl e, k')"
  by (simp add: place_objects_def)

lemma place_all_exhausted:
  assumes "\<forall>i<5000. \<not> location_valid (fst (candidate s rnd obj (k + 3 * i)))
             (get_horizontal_radius obj) placed"
  shows "place_all s rnd (obj # objs) placed ps qs k = (Inl RandomizationError, k + 15000)"
  using attempts_None [OF assms] by simp


lemma attempts_accept_at:
  assumes "i < n"
    and "location_valid (fst (candidate s rnd obj (k + 3 * i))) (get_horizontal_radius obj) placed"
    and "\<forall>j<i. \<not> location_valid (fst (candidate s rnd obj (k + 3 * j)))
           (get_horizontal_radius obj) placed"
  shows "attempts s rnd obj placed n k =
     (Some (fst (candidate s rnd obj (k + 3 * i)), fst (sample_quat s rnd (k + 3 * i + 3))),
      snd (sample_quat s rnd (k + 3 * i + 3)))"
  using assms
proof (induction n arbitrary: i k)
  case 0
  then show ?case by simp
next
  case (Suc n)
  show ?case
  proof (cases i)
    case 0
    with Suc.prems(2) show ?thesis using attempts_first [of s rnd obj k placed n] by simp
  next
    case (Suc i')
    have nv: "\<not> location_valid (fst (candidate s rnd obj k)) (get_horizontal_radius obj) placed"
      using Suc.prems(3) Suc by force
    have i': "i' < n" using Suc.prems(1) Suc by simp
    have v: "location_valid (fst (candidate s rnd obj (k + 3 + 3 * i')))
        (get_horizontal_radius obj) placed"
      using Suc.prems(2) Suc by (simp add: add.assoc)
    have r: "\<forall>j<i'. \<not> location_valid (fst (candidate s rnd obj (k + 3 + 3 * j)))
           (get_horizontal_radius obj) placed"
    proof (intro allI impI)
      fix j assume "j < i'"
      then have "Suc j < i" using Suc by simp
      with Suc.prems(3) have "\<not> location_valid (fst (candidate s rnd obj (k + 3 * Suc j)))
           (get_horizontal_radius obj) placed" by blast
      then show "\<not> location_valid (fst (candidate s rnd obj (k + 3 + 3 * j)))
           (get_horizontal_radius obj) placed" by (simp add: add.assoc)
    qed
    from Suc.IH [OF i' v r]
    have "attempts s rnd obj placed n (k + 3) =
     (Some (fst (candidate s rnd obj (k + 3 * i)), fst (sample_quat s rnd (k + 3 * i + 3))),
      snd (sample_quat s rnd (k + 3 * i + 3)))"
      using Suc by (simp add: add.assoc add.commute add.left_commute)
    moreover obtain p k3 where c: "candidate s rnd obj k = (p, k3)" by (cases "candidate s rnd obj k")
    moreover have "k3 = k + 3" using candidate_snd [of s rnd obj k] c by simp
    ultimately show ?thesis using nv by simp
  qed
qed

lemma attempts_None_only:
  assumes "attempts s rnd obj placed n k = (None, k')"
  shows "(\<forall>i<n. \<not> location_valid (fst (candidate s rnd obj (k + 3 * i)))
            (get_horizontal_radius obj) placed) \<and> k' = k + 3 * n"
proof -
  let ?V = "\<lambda>i. location_valid (fst (candidate s rnd obj (k + 3 * i))) (get_horizontal_radius obj) placed"
  have all: "\<forall>i<n. \<not> ?V i"
  proof (rule ccontr)
    assume "\<not> (\<forall>i<n. \<not> ?V i)"
    then obtain i where i: "i < n \<and> ?V i" by blast
    define m where "m = (LEAST i. i < n \<and> ?V i)"
    have m: "m < n \<and> ?V m" unfolding m_def using i by (rule LeastI)
    have least: "\<forall>j<m. \<not> ?V j"
    proof (intro allI impI)
      fix j assume j: "j < m"
      show "\<not> ?V j"
      proof
        assume "?V j"
        with j m have "j < n \<and> ?V j" by simp
        then have "m \<le> j" unfolding m_def by (rule Least_le)
        with j show False by simp
      qed
    qed
    from attempts_accept_at [of m n s rnd obj k placed] m least assms show False by simp
  qed
  from attempts_None [OF all] assms show ?thesis using all by simp
qed

lemma place_all_accept:
  assumes "i < 5000"
    and "location_valid (fst (candidate s rnd obj (k + 3 * i))) (get_horizontal_radius obj) placed"
    and "\<forall>j<i. \<not> location_valid (fst (candidate s rnd obj (k + 3 * j)))
           (get_horizontal_radius obj) placed"
  shows "place_all s rnd (obj # objs) placed ps qs k =
     place_all s rnd objs
       (placed @ [(fst (candidate s rnd obj (k + 3 * i)), get_horizontal_radius obj)])
       (ps @ [fst (candidate s rnd obj (k + 3 * i))])
       (qs @ [fst (sample_quat s rnd (k + 3 * i + 3))])
       (snd (sample_quat s rnd (k + 3 * i + 3)))"
  using attempts_accept_at [OF assms] by simp

lemma place_all_Inl_cause:
  "place_all s rnd objs placed ps qs k = (Inl e, k') \<Longrightarrow>
     \<exists>n extra k0. n < length objs \<and> length extra = n \<and>
        map snd extra = map get_horizontal_radius (take n objs) \<and>
        (\<forall>i<5000. \<not> location_valid (fst (candidate s rnd (objs ! n) (k0 + 3 * i)))
                     (get_horizontal_radius (objs ! n)) (placed @ extra)) \<and>
        k' = k0 + 3 * 5000"
proof (induction objs arbitrary: placed ps qs k)
  case Nil
  then show ?case by simp
next
  case (Cons obj rest)
  obtain res k1 where a: "attempts s rnd obj placed 5000 k = (res, k1)"
    by (cases "attempts s rnd obj placed 5000 k")
  show ?case
  proof (cases res)
    case None
    from attempts_None_only [OF a [unfolded None]]
    have "(\<forall>i<5000. \<not> location_valid (fst (candidate s rnd obj (k + 3 * i)))
            (get_horizontal_radius obj) placed)" "k1 = k + 3 * 5000" by simp_all
    moreover have "k' = k1" using Cons.prems a None by simp
    ultimately show ?thesis
      by (intro exI [of _ 0] exI [of _ "[]"] exI [of _ k]) simp
  next
    case (Some pq)
    obtain pos quat where pq: "pq = (pos, quat)" by (cases pq)
    let ?r = "get_horizontal_radius obj"
    from Cons.prems a Some pq
    have "place_all s rnd rest (placed @ [(pos, ?r)]) (ps @ [pos]) (qs @ [quat]) k1 = (Inl e, k')"
      by simp
    from Cons.IH [OF this] obtain n extra k0 where n: "n < length rest" "length extra = n"
      "map snd extra = map get_horizontal_radius (take n rest)"
      "\<forall>i<5000. \<not> location_valid (fst (candidate s rnd (rest ! n) (k0 + 3 * i)))
                     (get_horizontal_radius (rest ! n)) ((placed @ [(pos, ?r)]) @ extra)"
      "k' = k0 + 3 * 5000"
      by blast
    then show ?thesis
      by (intro exI [of _ "Suc n"] exI [of _ "(pos, ?r) # extra"] exI [of _ k0]) simp
  qed
qed

lemma sample_Inl_cause:
  assumes "sample s rnd k = (Inl e, k')"
  shows "e = RandomizationError \<and>
     (\<exists>n placed k0. 0 < n \<and> n < length (mujoco_objects s) \<and> length placed = n \<and>
        map snd placed = map get_horizontal_radius (take n (mujoco_objects s)) \<and>
        (\<forall>i<5000. \<not> location_valid (fst (candidate s rnd (mujoco_objects s ! n) (k0 + 3 * i)))
                     (get_horizontal_radius (mujoco_objects s ! n)) placed) \<and>
        k' = k0 + 3 * 5000)"
proof -
  from place_all_Inl_cause [OF assms [unfolded sample_def]]
  obtain n extra k0 where n: "n < length (mujoco_objects s)" "length extra = n"
      "map snd extra = map get_horizontal_radius (take n (mujoco_objects s))"
      "\<forall>i<5000. \<not> location_valid (fst (candidate s rnd (mujoco_objects s ! n) (k0 + 3 * i)))
                     (get_horizontal_radius (mujoco_objects s ! n)) ([] @ extra)"
      "k' = k0 + 3 * 5000"
    by blast
  have "0 < n"
  proof (rule ccontr)
    assume "\<not> 0 < n"
    with n(2) have "extra = []" by simp
    with n(4) have "\<not> location_valid (fst (candidate s rnd (mujoco_objects s ! n) (k0 + 3 * 0)))
                     (get_horizontal_radius (mujoco_objects s ! n)) []" by force
    then show False by simp
  qed
  moreover have "e = RandomizationError"
    using assms unfolding sample_def by (rule place_all_error)
  ultimately show ?thesis using n by auto
qed

lemma candidate_vy:
  "vy (fst (candidate s rnd obj k)) =
     vy (table_top_offset s) - vy (get_bottom_offset obj)
       + fst (sample_y s rnd (get_horizontal_radius obj) (k + 1))"
  by (simp add: candidate_def vadd_def vsub_def vx_def vy_def sample_x_def uniform_def
      split: prod.splits)

lemma sample_xy_bounds:
  assumes "valid_rng rnd"
  shows "ensure_object_boundary_in_range s \<and> x_lo s + r \<le> x_hi s - r \<longrightarrow>
           x_lo s + r \<le> fst (sample_x s rnd r k) \<and> fst (sample_x s rnd r k) \<le> x_hi s - r"
    and "ensure_object_boundary_in_range s \<and> y_lo s + r \<le> y_hi s - r \<longrightarrow>
           y_lo s + r \<le> fst (sample_y s rnd r k) \<and> fst (sample_y s rnd r k) \<le> y_hi s - r"
    and "\<not> ensure_object_boundary_in_range s \<longrightarrow>
           fst (sample_x s rnd r k) = x_lo s + (x_hi s - x_lo s) * rnd k \<and>
           fst (sample_y s rnd r k) = y_lo s + (y_hi s - y_lo s) * rnd k \<and>
           x_lo s \<le> fst (sample_x s rnd r k) \<and> fst (sample_x s rnd r k) \<le> x_hi s \<and>
           y_lo s \<le> fst (sample_y s rnd r k) \<and> fst (sample_y s rnd r k) \<le> y_hi s"
proof -
  have u: "0 \<le> rnd k" "rnd k < 1" using assms by (simp_all add: valid_rng_def)
  show "ensure_object_boundary_in_range s \<and> x_lo s + r \<le> x_hi s - r \<longrightarrow>
           x_lo s + r \<le> fst (sample_x s rnd r k) \<and> fst (sample_x s rnd r k) \<le> x_hi s - r"
  proof
    assume h: "ensure_object_boundary_in_range s \<and> x_lo s + r \<le> x_hi s - r"
    from affine_between [OF u conjunct2 [OF h]] h
    show "x_lo s + r \<le> fst (sample_x s rnd r k) \<and> fst (sample_x s rnd r k) \<le> x_hi s - r"
      by (simp add: sample_x_eq shrink_def)
  qed
  show "ensure_object_boundary_in_range s \<and> y_lo s + r \<le> y_hi s - r \<longrightarrow>
           y_lo s + r \<le> fst (sample_y s rnd r k) \<and> fst (sample_y s rnd r k) \<le> y_hi s - r"
  proof
    assume h: "ensure_object_boundary_in_range s \<and> y_lo s + r \<le> y_hi s - r"
    from affine_between [OF u conjunct2 [OF h]] h
    show "y_lo s + r \<le> fst (sample_y s rnd r k) \<and> fst (sample_y s rnd r k) \<le> y_hi s - r"
      by (simp add: sample_y_eq shrink_def)
  qed
  show "\<not> ensure_object_boundary_in_range s \<longrightarrow>
           fst (sample_x s rnd r k) = x_lo s + (x_hi s - x_lo s) * rnd k \<and>
           fst (sample_y s rnd r k) = y_lo s + (y_hi s - y_lo s) * rnd k \<and>
           x_lo s \<le> fst (sample_x s rnd r k) \<and> fst (sample_x s rnd r k) \<le> x_hi s \<and>
           y_lo s \<le> fst (sample_y s rnd r k) \<and> fst (sample_y s rnd r k) \<le> y_hi s"
  proof
    assume h: "\<not> ensure_object_boundary_in_range s"
    have x: "x_lo s \<le> x_hi s" and y: "y_lo s \<le> y_hi s" by simp_all
    from affine_between [OF u x] affine_between [OF u y] h
    show "fst (sample_x s rnd r k) = x_lo s + (x_hi s - x_lo s) * rnd k \<and>
           fst (sample_y s rnd r k) = y_lo s + (y_hi s - y_lo s) * rnd k \<and>
           x_lo s \<le> fst (sample_x s rnd r k) \<and> fst (sample_x s rnd r k) \<le> x_hi s \<and>
           y_lo s \<le> fst (sample_y s rnd r k) \<and> fst (sample_y s rnd r k) \<le> y_hi s"
      by (simp add: sample_x_eq sample_y_eq shrink_def)
  qed
qed

lemma sample_centers:
  assumes "sample s rnd k = (Inr (pos_arr, quat_arr), k')" and "i < length (mujoco_objects s)"
  shows "\<exists>j. center_x s (mujoco_objects s ! i) (pos_arr ! i)
                = fst (sample_x s rnd (get_horizontal_radius (mujoco_objects s ! i)) j) \<and>
              center_y s (mujoco_objects s ! i) (pos_arr ! i)
                = fst (sample_y s rnd (get_horizontal_radius (mujoco_objects s ! i)) (j + 1))"
proof -
  from sample_Inr(3) [OF assms] obtain j where
    "pos_arr ! i = fst (candidate s rnd (mujoco_objects s ! i) j)" by blast
  then show ?thesis by (intro exI [of _ j]) (simp add: candidate_vx candidate_vy)
qed

subsection \<open>The evaluation grid\<close>

lemma length_concat_rows:
  "length (concat (map (\<lambda>x. map (f x) zs) xs)) = length xs * length zs"
  by (induction xs) auto

lemma length_concat_planes:
  "length (concat (map (\<lambda>y. concat (map (\<lambda>x. map (f y x) zs) xs)) ys))
     = length ys * (length xs * length zs)"
  by (induction ys) (auto simp: length_concat_rows)

lemma length_concat_const_rows:
  "length (concat (map (\<lambda>x. zs) xs)) = length xs * length zs"
  by (induction xs) auto

lemma length_concat_const_planes:
  "length (concat (map (\<lambda>y. concat (map (\<lambda>x. zs) xs)) ys)) = length ys * (length xs * length zs)"
  by (induction ys) (auto simp: length_concat_const_rows)

lemma length_meshgrid_ravel:
  "length (fst (meshgrid_ravel xs ys zs)) = length xs * length ys * length zs"
  "length (fst (snd (meshgrid_ravel xs ys zs))) = length xs * length ys * length zs"
  "length (snd (snd (meshgrid_ravel xs ys zs))) = length xs * length ys * length zs"
  by (simp_all add: meshgrid_ravel_def length_concat_planes length_concat_const_planes)

lemma schedule_entry_None:
  "0 < length (fst g) \<Longrightarrow> schedule_entry g None rnd t k = (Inr (base_point g t), k)"
  by (cases g) (auto simp: schedule_entry_def base_point_def Let_def)

lemma fill_schedule_None:
  "0 < length (fst g) \<Longrightarrow> fill_schedule g None rnd ts k = (Inr (map (base_point g) ts), k)"
  by (induction ts) (simp_all add: schedule_entry_None)

lemma fill_schedule_upt_None:
  "fill_schedule g None rnd [0..<length (fst g)] k
     = (Inr (map (base_point g) [0..<length (fst g)]), k)"
proof (cases "length (fst g) = 0")
  case True
  then show ?thesis by simp
next
  case False
  then show ?thesis by (simp add: fill_schedule_None)
qed

lemma final_grids_schedule:
  "final_grids grid_of ((xl, xh, xn), (yl, yh, yn), (zl, zh, zn)) True False rnd k =
     (let g = meshgrid_ravel (grid_of xl xh xn) (grid_of yl yh yn) (grid_of zl zh zn);
          ps = map (base_point g) [0..<length (fst g)]
      in (Inr (map fst ps, map (fst \<circ> snd) ps, map (snd \<circ> snd) ps), k))"
  by (simp add: final_grids_def Let_def fill_schedule_upt_None)

lemma final_grids_entries:
  assumes "g = meshgrid_ravel (grid_of xl xh xn) (grid_of yl yh yn) (grid_of zl zh zn)"
    and "L = length (fst g)"
  shows "\<exists>fx fy fz.
      final_grids grid_of ((xl, xh, xn), (yl, yh, yn), (zl, zh, zn)) True False rnd k
        = (Inr (fx, fy, fz), k) \<and>
      L = length (grid_of xl xh xn) * length (grid_of yl yh yn) * length (grid_of zl zh zn) \<and>
      length fx = L \<and> length fy = L \<and> length fz = L \<and>
      (\<forall>t<L. fx ! t = fst g ! (t mod L) \<and> fy ! t = fst (snd g) ! (t mod L) \<and>
              fz ! t = snd (snd g) ! (t mod L))"
proof -
  let ?ps = "map (base_point g) [0..<L]"
  have run: "final_grids grid_of ((xl, xh, xn), (yl, yh, yn), (zl, zh, zn)) True False rnd k
              = (Inr (map fst ?ps, map (fst \<circ> snd) ?ps, map (snd \<circ> snd) ?ps), k)"
    unfolding assms by (simp add: final_grids_schedule Let_def)
  have len: "L = length (grid_of xl xh xn) * length (grid_of yl yh yn) * length (grid_of zl zh zn)"
    unfolding assms by (simp add: length_meshgrid_ravel)
  have ent: "\<forall>t<L. map fst ?ps ! t = fst g ! (t mod L) \<and>
      map (fst \<circ> snd) ?ps ! t = fst (snd g) ! (t mod L) \<and>
      map (snd \<circ> snd) ?ps ! t = snd (snd g) ! (t mod L)"
    by (simp add: base_point_def assms(2))
  from run len ent show ?thesis
    by (intro exI [of _ "map fst ?ps"] exI [of _ "map (fst \<circ> snd) ?ps"]
        exI [of _ "map (snd \<circ> snd) ?ps"]) simp
qed

lemma meshgrid_ravel_two_by_two:
  "meshgrid_ravel [1, 2] [10, 20] [100, 200] =
     ([1, 1, 2, 2, 1, 1, 2, 2],
      [10, 10, 10, 10, 20, 20, 20, 20],
      [100, 200, 100, 200, 100, 200, 100, 200])"
  by (simp add: meshgrid_ravel_def)

lemma builder_never_returns:
  "\<exists>e k'. get_placement_initializer_for_eval_mode grid_of bnds eval_mode perturb_evals rnd k
     = (Inl e, k')"
proof -
  obtain r k' where f: "final_grids grid_of bnds eval_mode perturb_evals rnd k = (r, k')"
    by (cases "final_grids grid_of bnds eval_mode perturb_evals rnd k")
  show ?thesis
    by (cases r) (simp_all add: get_placement_initializer_for_eval_mode_def f)
qed

lemma builder_NameError:
  "get_placement_initializer_for_eval_mode grid_of bnds True False rnd k = (Inl NameError, k)"
proof -
  obtain xl xh xn yl yh yn zl zh zn where b: "bnds = ((xl, xh, xn), (yl, yh, yn), (zl, zh, zn))"
    by (metis prod_cases3)
  show ?thesis
    unfolding b by (simp add: get_placement_initializer_for_eval_mode_def final_grids_schedule Let_def)
qed

subsection \<open>The example configurations evaluated\<close>

lemma valid_stacking_draws: "valid_rng stacking_draws"
  by (simp add: valid_rng_def stacking_draws_def)

lemma default_sampler_simps:
  "x_range (default_sampler objs) = None" "y_range (default_sampler objs) = None"
  "z_range (default_sampler objs) = None"
  "ensure_object_boundary_in_range (default_sampler objs)"
  "z_rotation (default_sampler objs)"
  "mujoco_objects (default_sampler objs) = objs"
  "table_top_offset (default_sampler objs) = (0, 0, 0)"
  "table_size (default_sampler objs) = (0.8, 0.8, 0.8)"
  by (simp_all add: default_sampler_def sampler_setup_def UniformRandomPegsSampler_def)

lemma thin_peg_simps:
  "get_horizontal_radius thin_peg = 0.005" "get_bottom_offset thin_peg = (0, 0, 0)"
  by (simp_all add: thin_peg_def)

lemma cand0: "candidate (default_sampler objs) stacking_draws thin_peg 0 = ((0, 0, 0.01), 3)"
  by (simp add: candidate_def sample_x_def sample_y_def sample_z_def shrink_def uniform_def
      active_x_range_def active_y_range_def active_z_range_def default_sampler_simps
      thin_peg_simps stacking_draws_def vadd_def vsub_def vx_def vy_def vz_def)

lemma cand4: "candidate (default_sampler objs) stacking_draws thin_peg 4 = ((0, 0, 0.03), 7)"
  by (simp add: candidate_def sample_x_def sample_y_def sample_z_def shrink_def uniform_def
      active_x_range_def active_y_range_def active_z_range_def default_sampler_simps
      thin_peg_simps stacking_draws_def vadd_def vsub_def vx_def vy_def vz_def)

lemma quat3: "sample_quat (default_sampler objs) stacking_draws 3 = ((1, 0, 0, 0), 4)"
  by (simp add: sample_quat_def uniform_def default_sampler_simps stacking_draws_def)

lemma quat7: "sample_quat (default_sampler objs) stacking_draws 7 = ((1, 0, 0, 0), 8)"
  by (simp add: sample_quat_def uniform_def default_sampler_simps stacking_draws_def)

lemma far2: "\<not> norm2 (vsub (0, 0, 0.03) (0, 0, 0.01)) \<le> 0.005 + 0.005"
  unfolding norm2_le_iff by (simp add: vsub_def vx_def vy_def vz_def power2_eq_square)

lemma valid2: "location_valid (0, 0, 0.03) 0.005 [((0, 0, 0.01), 0.005)]"
  using far2 by simp

lemma stacking_sample:
  "sample (default_sampler [thin_peg, thin_peg]) stacking_draws 0 =
     (Inr ([(0, 0, 0.01), (0, 0, 0.03)], [(1, 0, 0, 0), (1, 0, 0, 0)]), 8)"
proof -
  let ?s = "default_sampler [thin_peg, thin_peg]"
  have n: "(5000::nat) = Suc 4999" by simp
  have a1: "attempts ?s stacking_draws thin_peg [] 5000 0 = (Some ((0, 0, 0.01), (1, 0, 0, 0)), 4)"
    unfolding n by (subst attempts_first) (simp_all add: cand0 quat3)
  have a2: "attempts ?s stacking_draws thin_peg [((0, 0, 0.01), 0.005)] 5000 4
      = (Some ((0, 0, 0.03), (1, 0, 0, 0)), 8)"
  proof -
    have "location_valid (fst (candidate ?s stacking_draws thin_peg 4))
        (get_horizontal_radius thin_peg) [((0, 0, 0.01), 0.005)]"
      using valid2 by (simp add: cand4 thin_peg_simps)
    from attempts_first [OF this, of 4999] show ?thesis
      unfolding n by (simp add: cand4 quat7)
  qed
  show ?thesis
    using a1 a2 by (simp add: sample_def default_sampler_simps thin_peg_simps)
qed

lemma valid_half_draws: "valid_rng half_draws"
  by (simp add: valid_rng_def half_draws_def)


lemma narrow_sampler_simps:
  "x_range (narrow_sampler objs) = Some (- 0.01, 0.01)" "y_range (narrow_sampler objs) = None"
  "z_range (narrow_sampler objs) = None"
  "ensure_object_boundary_in_range (narrow_sampler objs)"
  "z_rotation (narrow_sampler objs)"
  "mujoco_objects (narrow_sampler objs) = objs"
  "table_top_offset (narrow_sampler objs) = (0, 0, 0)"
  "table_size (narrow_sampler objs) = (0.8, 0.8, 0.8)"
  by (simp_all add: narrow_sampler_def sampler_setup_def UniformRandomPegsSampler_def)

lemma wide_peg_simps:
  "get_horizontal_radius wide_peg = 0.05" "get_bottom_offset wide_peg = (0, 0, 0)"
  by (simp_all add: wide_peg_def)

lemma narrow_sample_x: "fst (sample_x (narrow_sampler objs) half_draws 0.05 0) = 0"
  by (simp add: sample_x_eq shrink_def active_x_range_def narrow_sampler_simps half_draws_def)


lemma default_wide_candidate:
  "candidate (default_sampler objs) half_draws wide_peg 0 = ((0, 0, 0.5), 3)"
  by (simp add: candidate_def sample_x_def sample_y_def sample_z_def shrink_def uniform_def
      active_x_range_def active_y_range_def active_z_range_def default_sampler_simps
      wide_peg_simps half_draws_def vadd_def vsub_def vx_def vy_def vz_def)

lemma narrow_wide_candidate:
  "candidate (narrow_sampler objs) half_draws wide_peg 0 = ((0, 0, 0.5), 3)"
  by (simp add: candidate_def sample_x_def sample_y_def sample_z_def shrink_def uniform_def
      active_x_range_def active_y_range_def active_z_range_def narrow_sampler_simps
      wide_peg_simps half_draws_def vadd_def vsub_def vx_def vy_def vz_def)

lemma half_turn_quat:
  "z_rotation s \<Longrightarrow> sample_quat s half_draws 3 = ((0, 0, 0, 1), 4)"
  by (simp add: sample_quat_def uniform_def half_draws_def)

lemma two_pegs_initializer:
  "initializer (PegsTask keep_asset empty_world [(''block1'', thin_peg), (''block2'', thin_peg)] None)
     = default_sampler [thin_peg, thin_peg]"
  by (simp add: PegsTask_def Let_def merge_objects_def merge_objects_loop_fields
      default_sampler_def empty_world_def)

lemma pinned_sampler_simps:
  "x_range (pinned_sampler objs) = Some (0, 0)" "y_range (pinned_sampler objs) = Some (0, 0)"
  "z_range (pinned_sampler objs) = Some (0, 0)"
  "\<not> ensure_object_boundary_in_range (pinned_sampler objs)"
  "\<not> z_rotation (pinned_sampler objs)"
  "mujoco_objects (pinned_sampler objs) = objs"
  "table_top_offset (pinned_sampler objs) = (0, 0, 0)"
  "table_size (pinned_sampler objs) = (0.8, 0.8, 0.8)"
  by (simp_all add: pinned_sampler_def sampler_setup_def UniformRandomPegsSampler_def)

lemma pinned_candidate:
  "candidate (pinned_sampler objs) rnd wide_peg k = ((0, 0, 0), k + 3)"
  by (simp add: candidate_def sample_x_def sample_y_def sample_z_def shrink_def uniform_def
      active_x_range_def active_y_range_def active_z_range_def pinned_sampler_simps
      wide_peg_simps vadd_def vsub_def vx_def vy_def vz_def)

lemma pinned_collision: "\<not> location_valid (0, 0, 0) 0.05 [((0, 0, 0), 0.05)]"
  by (simp add: norm2_def vsub_def vx_def vy_def vz_def)

lemma pinned_first:
  "attempts (pinned_sampler objs) rnd wide_peg [] 5000 0 = (Some ((0, 0, 0), (1, 0, 0, 0)), 3)"
proof -
  have n: "(5000::nat) = Suc 4999" by simp
  have "location_valid (fst (candidate (pinned_sampler objs) rnd wide_peg 0))
      (get_horizontal_radius wide_peg) []" by simp
  from attempts_first [OF this, of 4999] show ?thesis
    unfolding n by (simp add: pinned_candidate sample_quat_def pinned_sampler_simps)
qed

lemma inverted_sampler_simps:
  "x_range (inverted_sampler objs) = Some (0.2, - 0.3)"
  "y_range (inverted_sampler objs) = Some (0.1, 0.1)"
  "z_range (inverted_sampler objs) = None"
  "\<not> ensure_object_boundary_in_range (inverted_sampler objs)"
  "\<not> z_rotation (inverted_sampler objs)"
  "mujoco_objects (inverted_sampler objs) = objs"
  "table_top_offset (inverted_sampler objs) = (0, 0, 0)"
  "table_size (inverted_sampler objs) = (0.8, 0.8, 0.8)"
  by (simp_all add: inverted_sampler_def sampler_setup_def UniformRandomPegsSampler_def)

lemma inverted_candidate:
  "candidate (inverted_sampler objs) half_draws thin_peg 0 = ((- 0.05, 0.1, 0.5), 3)"
  by (simp add: candidate_def sample_x_def sample_y_def sample_z_def shrink_def uniform_def
      active_x_range_def active_y_range_def active_z_range_def inverted_sampler_simps
      thin_peg_simps half_draws_def vadd_def vsub_def vx_def vy_def vz_def)

lemma lane_sampler_simps:
  "x_range (lane_sampler objs) = Some (0, 1)" "y_range (lane_sampler objs) = Some (0, 0)"
  "z_range (lane_sampler objs) = Some (0, 0)"
  "\<not> ensure_object_boundary_in_range (lane_sampler objs)"
  "\<not> z_rotation (lane_sampler objs)"
  "mujoco_objects (lane_sampler objs) = objs"
  "table_top_offset (lane_sampler objs) = (0, 0, 0)"
  "table_size (lane_sampler objs) = (0.8, 0.8, 0.8)"
  by (simp_all add: lane_sampler_def sampler_setup_def UniformRandomPegsSampler_def)

lemma lane_candidate:
  "candidate (lane_sampler objs) rnd wide_peg k = ((rnd k, 0, 0), k + 3)"
  by (simp add: candidate_def sample_x_def sample_y_def sample_z_def shrink_def uniform_def
      active_x_range_def active_y_range_def active_z_range_def lane_sampler_simps
      wide_peg_simps vadd_def vsub_def vx_def vy_def vz_def)

lemma lane_quat: "sample_quat (lane_sampler objs) rnd k = ((1, 0, 0, 0), k)"
  by (simp add: sample_quat_def lane_sampler_simps)

lemma lane_first:
  "attempts (lane_sampler objs) reroll_draws wide_peg [] 5000 0 = (Some ((0, 0, 0), (1, 0, 0, 0)), 3)"
proof -
  have n: "(5000::nat) = Suc 4999" by simp
  have "location_valid (fst (candidate (lane_sampler objs) reroll_draws wide_peg 0))
      (get_horizontal_radius wide_peg) []" by simp
  from attempts_first [OF this, of 4999] show ?thesis
    unfolding n by (simp add: lane_candidate lane_quat reroll_draws_def)
qed

lemma lane_far: "\<not> norm2 (vsub (1 / 2, 0, 0) (0, 0, 0)) \<le> 0.05 + 0.05"
  unfolding norm2_le_iff by (simp add: vsub_def vx_def vy_def vz_def power2_eq_square)

lemma lane_second_valid: "location_valid (1 / 2, 0, 0) 0.05 [((0, 0, 0), 0.05)]"
  using lane_far by simp

lemma default_wide_sample:
  "sample (default_sampler [wide_peg]) half_draws 0 = (Inr ([(0, 0, 0.5)], [(0, 0, 0, 1)]), 4)"
proof -
  have m: "mujoco_objects (default_sampler [wide_peg]) = [wide_peg]"
    by (simp add: default_sampler_simps)
  have z: "z_rotation (default_sampler [wide_peg])" by (simp add: default_sampler_simps)
  from sample_singleton [OF m, of half_draws 0] z show ?thesis
    by (simp add: default_wide_candidate half_turn_quat)
qed

lemma inverted_sample:
  "sample (inverted_sampler [thin_peg]) half_draws 0
     = (Inr ([(- 0.05, 0.1, 0.5)], [(1, 0, 0, 0)]), 3)"
proof -
  have m: "mujoco_objects (inverted_sampler [thin_peg]) = [thin_peg]"
    by (simp add: inverted_sampler_simps)
  from sample_singleton [OF m, of half_draws 0] show ?thesis
    by (simp add: inverted_candidate sample_quat_def inverted_sampler_simps)
qed

lemma narrow_candidate_any:
  "candidate (narrow_sampler objs) half_draws wide_peg k = ((0, 0, 0.5), k + 3)"
  by (simp add: candidate_def sample_x_def sample_y_def sample_z_def shrink_def uniform_def
      active_x_range_def active_y_range_def active_z_range_def narrow_sampler_simps
      wide_peg_simps half_draws_def vadd_def vsub_def vx_def vy_def vz_def)

lemma narrow_wide_sample:
  "sample (narrow_sampler [wide_peg]) half_draws 0 = (Inr ([(0, 0, 0.5)], [(0, 0, 0, 1)]), 4)"
proof -
  have m: "mujoco_objects (narrow_sampler [wide_peg]) = [wide_peg]"
    by (simp add: narrow_sampler_simps)
  have z: "z_rotation (narrow_sampler [wide_peg])" by (simp add: narrow_sampler_simps)
  from sample_singleton [OF m, of half_draws 0] z show ?thesis
    by (simp add: narrow_wide_candidate half_turn_quat)
qed

lemma same_spot_collision: "\<not> location_valid (0, 0, 0.5) 0.05 [((0, 0, 0.5), 0.05)]"
  by (simp add: norm2_def vsub_def vx_def vy_def vz_def)

lemma narrow_pair_fails:
  "sample (narrow_sampler [wide_peg, wide_peg]) half_draws 0 = (Inl RandomizationError, 15004)"
proof -
  let ?s = "narrow_sampler [wide_peg, wide_peg]"
  have n: "(5000::nat) = Suc 4999" by simp
  have "location_valid (fst (candidate ?s half_draws wide_peg 0)) (get_horizontal_radius wide_peg) []"
    by simp
  from attempts_first [OF this, of 4999]
  have f: "attempts ?s half_draws wide_peg [] 5000 0 = (Some ((0, 0, 0.5), (0, 0, 0, 1)), 4)"
    unfolding n by (simp add: narrow_candidate_any half_turn_quat narrow_sampler_simps)
  have "\<forall>i<5000. \<not> location_valid (fst (candidate ?s half_draws wide_peg (4 + 3 * i)))
      (get_horizontal_radius wide_peg) ([] @ [((0, 0, 0.5), get_horizontal_radius wide_peg)])"
    using same_spot_collision by (simp add: narrow_candidate_any wide_peg_simps)
  from place_all_exhausted [OF this, of "[]" "[] @ [(0, 0, 0.5)]" "[] @ [(0, 0, 0, 1)]"]
  have "place_all ?s half_draws [wide_peg] ([] @ [((0, 0, 0.5), get_horizontal_radius wide_peg)])
      ([] @ [(0, 0, 0.5)]) ([] @ [(0, 0, 0, 1)]) 4 = (Inl RandomizationError, 15004)"
    by simp
  with f show ?thesis by (simp add: sample_def narrow_sampler_simps)
qed

section \<open>Separation of the placed objects\<close>

text \<open>
  Claim C1, as the code has it. When \<open>sample\<close> succeeds it returns one position per
  descriptor, and any two placed objects whose heights differ by less than 0.021 are
  further apart than the sum of their horizontal radii, where the distance is the norm of
  the full three-dimensional difference of their positions (not of its horizontal part).
  A candidate is accepted exactly when no placed object is both within that distance and
  within that height gap.
\<close>

theorem sample_accepted_pairs_apart:
  "sample s rnd k = (Inr (pos_arr, quat_arr), k') \<Longrightarrow>
     length pos_arr = length (mujoco_objects s) \<and>
     (\<forall>i j. i < length pos_arr \<and> j < length pos_arr \<and> i \<noteq> j \<and>
            \<bar>vz (pos_arr ! i) - vz (pos_arr ! j)\<bar> < 0.021 \<longrightarrow>
        get_horizontal_radius (mujoco_objects s ! i) + get_horizontal_radius (mujoco_objects s ! j)
          < norm2 (vsub (pos_arr ! i) (pos_arr ! j))) \<and>
     (\<forall>pos hr placed. location_valid pos hr placed \<longleftrightarrow>
        (\<forall>(pos2, r) \<in> set placed.
            \<not> (norm2 (vsub pos pos2) \<le> r + hr \<and> \<bar>vz pos - vz pos2\<bar> < 0.021)))"
proof (intro conjI allI impI)
  assume a: "sample s rnd k = (Inr (pos_arr, quat_arr), k')"
  show len: "length pos_arr = length (mujoco_objects s)" by (rule sample_Inr(1) [OF a])
  fix i j
  assume h: "i < length pos_arr \<and> j < length pos_arr \<and> i \<noteq> j \<and>
            \<bar>vz (pos_arr ! i) - vz (pos_arr ! j)\<bar> < 0.021"
  let ?r = "\<lambda>n. get_horizontal_radius (mujoco_objects s ! n)"
  show "?r i + ?r j < norm2 (vsub (pos_arr ! i) (pos_arr ! j))"
  proof (cases "i < j")
    case True
    from sample_separated [OF a True] h len
    have "\<not> norm2 (vsub (pos_arr ! j) (pos_arr ! i)) \<le> ?r i + ?r j"
      by (simp add: abs_minus_commute)
    then show ?thesis by (simp add: norm2_vsub_commute [of "pos_arr ! i"])
  next
    case False
    with h have "j < i" by simp
    from sample_separated [OF a this] h len
    have "\<not> norm2 (vsub (pos_arr ! i) (pos_arr ! j)) \<le> ?r j + ?r i"
      by simp
    then show ?thesis by (simp add: add.commute)
  qed
next
  fix pos hr placed
  show "location_valid pos hr placed \<longleftrightarrow>
        (\<forall>(pos2, r) \<in> set placed.
            \<not> (norm2 (vsub pos pos2) \<le> r + hr \<and> \<bar>vz pos - vz pos2\<bar> < 0.021))"
    by (rule location_valid_iff)
qed

text \<open>The theorem at the two stacked pegs: their gap is 0.02 and their distance 0.02
  exceeds the sum 0.01 of the radii.\<close>

theorem sample_accepted_pairs_apart_witness:
  "sample (default_sampler [thin_peg, thin_peg]) stacking_draws 0 =
     (Inr ([(0, 0, 0.01), (0, 0, 0.03)], [(1, 0, 0, 0), (1, 0, 0, 0)]), 8) \<and>
   \<bar>vz (0, 0, 0.01) - vz (0, 0, 0.03)\<bar> < 0.021 \<and>
   get_horizontal_radius thin_peg + get_horizontal_radius thin_peg
     < norm2 (vsub (0, 0, 0.01) (0, 0, 0.03))"
proof -
  have gap: "\<bar>vz (0, 0, 0.01) - vz (0, 0, 0.03)\<bar> < 0.021" by (simp add: vz_def)
  from sample_accepted_pairs_apart [OF stacking_sample, THEN conjunct2, THEN conjunct1,
      rule_format, of 0 1] gap
  have "get_horizontal_radius thin_peg + get_horizontal_radius thin_peg
     < norm2 (vsub (0, 0, 0.01) (0, 0, 0.03))"
    by (simp add: default_sampler_simps)
  with gap stacking_sample show ?thesis by blast
qed

text \<open>With the horizontal distance in place of the norm the property fails: the same two
  pegs are placed with a vertical gap of 0.02 and a horizontal distance of 0, below the
  sum 0.01 of their radii.\<close>

theorem horizontal_overlap_counterexample:
  "valid_rng stacking_draws \<and>
   sample (default_sampler [thin_peg, thin_peg]) stacking_draws 0 =
     (Inr ([(0, 0, 0.01), (0, 0, 0.03)], [(1, 0, 0, 0), (1, 0, 0, 0)]), 8) \<and>
   \<bar>vz (0, 0, 0.01) - vz (0, 0, 0.03)\<bar> < 0.021 \<and>
   horizontal_distance (0, 0, 0.01) (0, 0, 0.03)
     < get_horizontal_radius thin_peg + get_horizontal_radius thin_peg"
  using valid_stacking_draws stacking_sample
  by (simp add: vz_def horizontal_distance_def vx_def vy_def thin_peg_simps)

section \<open>The retry bound and the error\<close>

text \<open>
  Claim C2. For each descriptor, in list order, the retry loop tries at most 5000
  candidates and takes the first valid one. A valid candidate at attempt \<open>i < 5000\<close>
  whose predecessors were all rejected is accepted, after \<open>3 * (i + 1)\<close> draws and one more
  with z-rotation, and the loop over the descriptors goes on with the next descriptor;
  conversely an accepted position is the candidate of such an attempt. The loop gives up
  exactly when all 5000 candidates are rejected, after \<open>3 * 5000\<close> draws, and then the
  whole call fails with \<open>RandomizationError\<close>, whatever descriptors follow and whatever
  had been placed. \<open>sample\<close> raises no other error and raises only in that case, for a
  descriptor after the first, and \<open>place_objects\<close> hands the error on to its caller
  unchanged.
\<close>

theorem retry_bound_and_failure:
  "(\<forall>pos q k'. attempts s rnd obj placed 5000 k = (Some (pos, q), k') \<longrightarrow>
      (\<exists>i<5000. pos = fst (candidate s rnd obj (k + 3 * i)) \<and>
         location_valid pos (get_horizontal_radius obj) placed \<and>
         (\<forall>j<i. \<not> location_valid (fst (candidate s rnd obj (k + 3 * j)))
                   (get_horizontal_radius obj) placed) \<and>
         k' = k + 3 * (i + 1) + (if z_rotation s then 1 else 0)) \<and>
      k' \<le> k + 3 * 5000 + 1) \<and>
   (\<forall>i<5000.
      location_valid (fst (candidate s rnd obj (k + 3 * i))) (get_horizontal_radius obj) placed \<and>
      (\<forall>j<i. \<not> location_valid (fst (candidate s rnd obj (k + 3 * j)))
                (get_horizontal_radius obj) placed) \<longrightarrow>
      attempts s rnd obj placed 5000 k =
        (Some (fst (candidate s rnd obj (k + 3 * i)), fst (sample_quat s rnd (k + 3 * i + 3))),
         k + 3 * (i + 1) + (if z_rotation s then 1 else 0)) \<and>
      place_all s rnd (obj # objs) placed ps qs k =
        place_all s rnd objs
          (placed @ [(fst (candidate s rnd obj (k + 3 * i)), get_horizontal_radius obj)])
          (ps @ [fst (candidate s rnd obj (k + 3 * i))])
          (qs @ [fst (sample_quat s rnd (k + 3 * i + 3))])
          (k + 3 * (i + 1) + (if z_rotation s then 1 else 0))) \<and>
   ((\<forall>i<5000. \<not> location_valid (fst (candidate s rnd obj (k + 3 * i)))
        (get_horizontal_radius obj) placed) \<longrightarrow>
      attempts s rnd obj placed 5000 k = (None, k + 3 * 5000) \<and>
      place_all s rnd (obj # objs) placed ps qs k = (Inl RandomizationError, k + 3 * 5000)) \<and>
   (\<forall>k'. attempts s rnd obj placed 5000 k = (None, k') \<longrightarrow>
      (\<forall>i<5000. \<not> location_valid (fst (candidate s rnd obj (k + 3 * i)))
          (get_horizontal_radius obj) placed) \<and>
      k' = k + 3 * 5000) \<and>
   (\<forall>e k'. sample s rnd k = (Inl e, k') \<longrightarrow>
      e = RandomizationError \<and>
      (\<exists>n placed k0. 0 < n \<and> n < length (mujoco_objects s) \<and> length placed = n \<and>
         map snd placed = map get_horizontal_radius (take n (mujoco_objects s)) \<and>
         (\<forall>i<5000. \<not> location_valid (fst (candidate s rnd (mujoco_objects s ! n) (k0 + 3 * i)))
                      (get_horizontal_radius (mujoco_objects s ! n)) placed) \<and>
         k' = k0 + 3 * 5000)) \<and>
   (\<forall>e k'. sample (initializer t) rnd k = (Inl e, k') \<longrightarrow>
      place_objects array_to_string rnd t k = (Inl e, k'))"
proof -
  have some: "\<forall>pos q k'. attempts s rnd obj placed 5000 k = (Some (pos, q), k') \<longrightarrow>
      (\<exists>i<5000. pos = fst (candidate s rnd obj (k + 3 * i)) \<and>
         location_valid pos (get_horizontal_radius obj) placed \<and>
         (\<forall>j<i. \<not> location_valid (fst (candidate s rnd obj (k + 3 * j)))
                   (get_horizontal_radius obj) placed) \<and>
         k' = k + 3 * (i + 1) + (if z_rotation s then 1 else 0)) \<and>
      k' \<le> k + 3 * 5000 + 1"
  proof (intro allI impI)
    fix pos q k'
    assume a: "attempts s rnd obj placed 5000 k = (Some (pos, q), k')"
    from attempts_Some [OF a] obtain i where i: "i < 5000"
      "pos = fst (candidate s rnd obj (k + 3 * i))"
      "location_valid pos (get_horizontal_radius obj) placed"
      "\<forall>j<i. \<not> location_valid (fst (candidate s rnd obj (k + 3 * j))) (get_horizontal_radius obj) placed"
      "(q, k') = sample_quat s rnd (k + 3 * i + 3)"
      by blast
    from i(5) have "k' = snd (sample_quat s rnd (k + 3 * i + 3))" by (metis snd_conv)
    then have k': "k' = k + 3 * (i + 1) + (if z_rotation s then 1 else 0)"
      by (simp add: sample_quat_snd)
    with i have "\<exists>i<5000. pos = fst (candidate s rnd obj (k + 3 * i)) \<and>
         location_valid pos (get_horizontal_radius obj) placed \<and>
         (\<forall>j<i. \<not> location_valid (fst (candidate s rnd obj (k + 3 * j)))
                   (get_horizontal_radius obj) placed) \<and>
         k' = k + 3 * (i + 1) + (if z_rotation s then 1 else 0)"
      by blast
    moreover from k' i(1) have "k' \<le> k + 3 * 5000 + 1" by simp
    ultimately show "(\<exists>i<5000. pos = fst (candidate s rnd obj (k + 3 * i)) \<and>
         location_valid pos (get_horizontal_radius obj) placed \<and>
         (\<forall>j<i. \<not> location_valid (fst (candidate s rnd obj (k + 3 * j)))
                   (get_horizontal_radius obj) placed) \<and>
         k' = k + 3 * (i + 1) + (if z_rotation s then 1 else 0)) \<and>
      k' \<le> k + 3 * 5000 + 1" by blast
  qed
  have acc: "\<forall>i<5000.
      location_valid (fst (candidate s rnd obj (k + 3 * i))) (get_horizontal_radius obj) placed \<and>
      (\<forall>j<i. \<not> location_valid (fst (candidate s rnd obj (k + 3 * j)))
                (get_horizontal_radius obj) placed) \<longrightarrow>
      attempts s rnd obj placed 5000 k =
        (Some (fst (candidate s rnd obj (k + 3 * i)), fst (sample_quat s rnd (k + 3 * i + 3))),
         k + 3 * (i + 1) + (if z_rotation s then 1 else 0)) \<and>
      place_all s rnd (obj # objs) placed ps qs k =
        place_all s rnd objs
          (placed @ [(fst (candidate s rnd obj (k + 3 * i)), get_horizontal_radius obj)])
          (ps @ [fst (candidate s rnd obj (k + 3 * i))])
          (qs @ [fst (sample_quat s rnd (k + 3 * i + 3))])
          (k + 3 * (i + 1) + (if z_rotation s then 1 else 0))"
  proof (intro allI impI)
    fix i
    assume i: "i < 5000"
      and h: "location_valid (fst (candidate s rnd obj (k + 3 * i))) (get_horizontal_radius obj) placed \<and>
      (\<forall>j<i. \<not> location_valid (fst (candidate s rnd obj (k + 3 * j)))
                (get_horizontal_radius obj) placed)"
    have e: "snd (sample_quat s rnd (k + 3 * i + 3)) = k + 3 * (i + 1) + (if z_rotation s then 1 else 0)"
      by (simp add: sample_quat_snd)
    from attempts_accept_at [OF i conjunct1 [OF h] conjunct2 [OF h]]
      place_all_accept [OF i conjunct1 [OF h] conjunct2 [OF h], of objs ps qs]
    show "attempts s rnd obj placed 5000 k =
        (Some (fst (candidate s rnd obj (k + 3 * i)), fst (sample_quat s rnd (k + 3 * i + 3))),
         k + 3 * (i + 1) + (if z_rotation s then 1 else 0)) \<and>
      place_all s rnd (obj # objs) placed ps qs k =
        place_all s rnd objs
          (placed @ [(fst (candidate s rnd obj (k + 3 * i)), get_horizontal_radius obj)])
          (ps @ [fst (candidate s rnd obj (k + 3 * i))])
          (qs @ [fst (sample_quat s rnd (k + 3 * i + 3))])
          (k + 3 * (i + 1) + (if z_rotation s then 1 else 0))"
      unfolding e by simp
  qed
  have exh: "(\<forall>i<5000. \<not> location_valid (fst (candidate s rnd obj (k + 3 * i)))
        (get_horizontal_radius obj) placed) \<longrightarrow>
      attempts s rnd obj placed 5000 k = (None, k + 3 * 5000) \<and>
      place_all s rnd (obj # objs) placed ps qs k = (Inl RandomizationError, k + 3 * 5000)"
  proof
    assume h: "\<forall>i<5000. \<not> location_valid (fst (candidate s rnd obj (k + 3 * i)))
        (get_horizontal_radius obj) placed"
    from attempts_None [OF h] place_all_exhausted [OF h, of objs ps qs]
    show "attempts s rnd obj placed 5000 k = (None, k + 3 * 5000) \<and>
      place_all s rnd (obj # objs) placed ps qs k = (Inl RandomizationError, k + 3 * 5000)"
      by simp
  qed
  have nonly: "\<forall>k'. attempts s rnd obj placed 5000 k = (None, k') \<longrightarrow>
      (\<forall>i<5000. \<not> location_valid (fst (candidate s rnd obj (k + 3 * i)))
          (get_horizontal_radius obj) placed) \<and>
      k' = k + 3 * 5000"
    using attempts_None_only [of s rnd obj placed 5000 k] by blast
  have cause: "\<forall>e k'. sample s rnd k = (Inl e, k') \<longrightarrow>
      e = RandomizationError \<and>
      (\<exists>n placed k0. 0 < n \<and> n < length (mujoco_objects s) \<and> length placed = n \<and>
         map snd placed = map get_horizontal_radius (take n (mujoco_objects s)) \<and>
         (\<forall>i<5000. \<not> location_valid (fst (candidate s rnd (mujoco_objects s ! n) (k0 + 3 * i)))
                      (get_horizontal_radius (mujoco_objects s ! n)) placed) \<and>
         k' = k0 + 3 * 5000)"
    using sample_Inl_cause [of s rnd k] by blast
  have prp: "\<forall>e k'. sample (initializer t) rnd k = (Inl e, k') \<longrightarrow>
      place_objects array_to_string rnd t k = (Inl e, k')"
    using place_objects_error by blast
  from some acc exh nonly cause prp show ?thesis by blast
qed

text \<open>The theorem for two pegs of radius 0.05. When only x varies over \<open>[0, 1]\<close> and the
  seventh draw is the first that is not 0, the first peg lands on the origin, the first
  candidate of the second peg collides with it and is rerolled, and the second candidate,
  at x = 1/2, is accepted after nine draws in all. When the ranges pin every candidate to
  the origin, all 5000 candidates of the second peg collide, and \<open>sample\<close> fails after
  \<open>3 + 15000\<close> draws, as does \<open>place_objects\<close> of a task with that sampler.\<close>

theorem retry_bound_and_failure_witness:
  "\<not> location_valid (fst (candidate (lane_sampler [wide_peg, wide_peg]) reroll_draws wide_peg 3))
       (get_horizontal_radius wide_peg) [((0, 0, 0), 0.05)] \<and>
   sample (lane_sampler [wide_peg, wide_peg]) reroll_draws 0 =
     (Inr ([(0, 0, 0), (1 / 2, 0, 0)], [(1, 0, 0, 0), (1, 0, 0, 0)]), 9) \<and>
   (\<forall>rnd. attempts (pinned_sampler [wide_peg, wide_peg]) rnd wide_peg [] 5000 0
            = (Some ((0, 0, 0), (1, 0, 0, 0)), 3) \<and>
         sample (pinned_sampler [wide_peg, wide_peg]) rnd 0 = (Inl RandomizationError, 15003) \<and>
         (\<forall>array_to_string.
            place_objects array_to_string rnd
              (empty_world\<lparr>initializer := pinned_sampler [wide_peg, wide_peg]\<rparr>) 0
              = (Inl RandomizationError, 15003)))"
proof (intro conjI allI)
  let ?l = "lane_sampler [wide_peg, wide_peg]"
  show rej0: "\<not> location_valid (fst (candidate ?l reroll_draws wide_peg 3))
       (get_horizontal_radius wide_peg) [((0, 0, 0), 0.05)]"
    using pinned_collision by (simp add: lane_candidate reroll_draws_def wide_peg_simps)
  have v1: "location_valid (fst (candidate ?l reroll_draws wide_peg (3 + 3 * 1)))
      (get_horizontal_radius wide_peg) [((0, 0, 0), 0.05)]"
    using lane_second_valid by (simp add: lane_candidate reroll_draws_def wide_peg_simps)
  have r1: "\<forall>j<1. \<not> location_valid (fst (candidate ?l reroll_draws wide_peg (3 + 3 * j)))
      (get_horizontal_radius wide_peg) [((0, 0, 0), 0.05)]"
    using rej0 by simp
  have one: "(1::nat) < 5000" by simp
  from retry_bound_and_failure [of ?l reroll_draws wide_peg "[((0, 0, 0), 0.05)]" 3 "[]"
      "[(0, 0, 0)]" "[(1, 0, 0, 0)]", THEN conjunct2, THEN conjunct1, rule_format, OF one]
    v1 r1
  have p: "place_all ?l reroll_draws [wide_peg] [((0, 0, 0), 0.05)] [(0, 0, 0)] [(1, 0, 0, 0)] 3
      = (Inr ([(0, 0, 0), (1 / 2, 0, 0)], [(1, 0, 0, 0), (1, 0, 0, 0)]), 9)"
    by (simp add: lane_candidate lane_quat lane_sampler_simps reroll_draws_def)
  show "sample ?l reroll_draws 0 =
     (Inr ([(0, 0, 0), (1 / 2, 0, 0)], [(1, 0, 0, 0), (1, 0, 0, 0)]), 9)"
    using lane_first [of "[wide_peg, wide_peg]"] p
    by (simp add: sample_def lane_sampler_simps wide_peg_simps)
next
  fix rnd :: rng
  let ?s = "pinned_sampler [wide_peg, wide_peg]"
  show f: "attempts ?s rnd wide_peg [] 5000 0 = (Some ((0, 0, 0), (1, 0, 0, 0)), 3)"
    by (rule pinned_first)
  have rej: "\<forall>i<5000. \<not> location_valid (fst (candidate ?s rnd wide_peg (3 + 3 * i)))
        (get_horizontal_radius wide_peg) [((0, 0, 0), 0.05)]"
    using pinned_collision by (simp add: pinned_candidate wide_peg_simps)
  from retry_bound_and_failure [of ?s rnd wide_peg "[((0, 0, 0), 0.05)]" 3 "[]"
      "[(0, 0, 0)]" "[(1, 0, 0, 0)]", THEN conjunct2, THEN conjunct2, THEN conjunct1, THEN mp,
      OF rej]
  have p: "place_all ?s rnd [wide_peg] [((0, 0, 0), 0.05)] [(0, 0, 0)] [(1, 0, 0, 0)] 3
      = (Inl RandomizationError, 15003)"
    by simp
  show s: "sample ?s rnd 0 = (Inl RandomizationError, 15003)"
    using f p by (simp add: sample_def pinned_sampler_simps wide_peg_simps)
  fix array_to_string :: "real list \<Rightarrow> string"
  let ?t = "empty_world\<lparr>initializer := ?s\<rparr>"
  have "sample (initializer ?t) rnd 0 = (Inl RandomizationError, 15003)" using s by simp
  from retry_bound_and_failure [of ?s rnd wide_peg "[]" 0 "[]" "[]" "[]" ?t array_to_string,
      THEN conjunct2, THEN conjunct2, THEN conjunct2, THEN conjunct2, THEN conjunct2,
      rule_format, OF this]
  show "place_objects array_to_string rnd ?t 0 = (Inl RandomizationError, 15003)" .
qed

section \<open>Range of the sampled centers\<close>

text \<open>
  Claim C3, as the code has it. With draws from \<open>[0, 1)\<close>, for every object placed by a
  successful \<open>sample\<close>, its center being taken in the frame of the surface: the x center
  is \<open>sample_x\<close> and the y center \<open>sample_y\<close> of that object's horizontal radius. When
  \<open>ensure_object_boundary_in_range\<close> is set and the active range of the axis is at least
  twice that radius wide, the x center lies in \<open>[x_min + radius, x_max - radius]\<close> and
  the y center in \<open>[y_min + radius, y_max - radius]\<close>. When the flag is not set, the
  center is uniform over the unshrunk range: it is \<open>min + (max - min) * u\<close> for the draw
  \<open>u\<close>, which lies in \<open>[min, max]\<close>. The same holds of \<open>sample_x\<close> and \<open>sample_y\<close> for
  any radius. The active range is the configured one, or the default of the axis.
\<close>

theorem sampled_center_within_range:
  assumes "valid_rng rnd"
  shows "(ensure_object_boundary_in_range s \<and> x_lo s + r \<le> x_hi s - r \<longrightarrow>
            x_lo s + r \<le> fst (sample_x s rnd r k) \<and> fst (sample_x s rnd r k) \<le> x_hi s - r) \<and>
         (ensure_object_boundary_in_range s \<and> y_lo s + r \<le> y_hi s - r \<longrightarrow>
            y_lo s + r \<le> fst (sample_y s rnd r k) \<and> fst (sample_y s rnd r k) \<le> y_hi s - r) \<and>
         (\<not> ensure_object_boundary_in_range s \<longrightarrow>
            fst (sample_x s rnd r k) = x_lo s + (x_hi s - x_lo s) * rnd k \<and>
            fst (sample_y s rnd r k) = y_lo s + (y_hi s - y_lo s) * rnd k \<and>
            x_lo s \<le> fst (sample_x s rnd r k) \<and> fst (sample_x s rnd r k) \<le> x_hi s \<and>
            y_lo s \<le> fst (sample_y s rnd r k) \<and> fst (sample_y s rnd r k) \<le> y_hi s) \<and>
         (\<forall>pos_arr quat_arr k0 k' i.
            sample s rnd k0 = (Inr (pos_arr, quat_arr), k') \<and> i < length (mujoco_objects s) \<longrightarrow>
            (\<exists>j. center_x s (mujoco_objects s ! i) (pos_arr ! i)
                    = fst (sample_x s rnd (get_horizontal_radius (mujoco_objects s ! i)) j) \<and>
                  center_y s (mujoco_objects s ! i) (pos_arr ! i)
                    = fst (sample_y s rnd (get_horizontal_radius (mujoco_objects s ! i)) (j + 1)) \<and>
                  (\<not> ensure_object_boundary_in_range s \<longrightarrow>
                     center_x s (mujoco_objects s ! i) (pos_arr ! i)
                       = x_lo s + (x_hi s - x_lo s) * rnd j \<and>
                     center_y s (mujoco_objects s ! i) (pos_arr ! i)
                       = y_lo s + (y_hi s - y_lo s) * rnd (j + 1))) \<and>
            (ensure_object_boundary_in_range s \<and>
             x_lo s + get_horizontal_radius (mujoco_objects s ! i)
               \<le> x_hi s - get_horizontal_radius (mujoco_objects s ! i) \<longrightarrow>
               x_lo s + get_horizontal_radius (mujoco_objects s ! i)
                 \<le> center_x s (mujoco_objects s ! i) (pos_arr ! i) \<and>
               center_x s (mujoco_objects s ! i) (pos_arr ! i)
                 \<le> x_hi s - get_horizontal_radius (mujoco_objects s ! i)) \<and>
            (ensure_object_boundary_in_range s \<and>
             y_lo s + get_horizontal_radius (mujoco_objects s ! i)
               \<le> y_hi s - get_horizontal_radius (mujoco_objects s ! i) \<longrightarrow>
               y_lo s + get_horizontal_radius (mujoco_objects s ! i)
                 \<le> center_y s (mujoco_objects s ! i) (pos_arr ! i) \<and>
               center_y s (mujoco_objects s ! i) (pos_arr ! i)
                 \<le> y_hi s - get_horizontal_radius (mujoco_objects s ! i)) \<and>
            (\<not> ensure_object_boundary_in_range s \<longrightarrow>
               x_lo s \<le> center_x s (mujoco_objects s ! i) (pos_arr ! i) \<and>
               center_x s (mujoco_objects s ! i) (pos_arr ! i) \<le> x_hi s \<and>
               y_lo s \<le> center_y s (mujoco_objects s ! i) (pos_arr ! i) \<and>
               center_y s (mujoco_objects s ! i) (pos_arr ! i) \<le> y_hi s))"
proof -
  note b = sample_xy_bounds [OF assms]
  have obj: "\<forall>pos_arr quat_arr k0 k' i.
            sample s rnd k0 = (Inr (pos_arr, quat_arr), k') \<and> i < length (mujoco_objects s) \<longrightarrow>
            (\<exists>j. center_x s (mujoco_objects s ! i) (pos_arr ! i)
                    = fst (sample_x s rnd (get_horizontal_radius (mujoco_objects s ! i)) j) \<and>
                  center_y s (mujoco_objects s ! i) (pos_arr ! i)
                    = fst (sample_y s rnd (get_horizontal_radius (mujoco_objects s ! i)) (j + 1)) \<and>
                  (\<not> ensure_object_boundary_in_range s \<longrightarrow>
                     center_x s (mujoco_objects s ! i) (pos_arr ! i)
                       = x_lo s + (x_hi s - x_lo s) * rnd j \<and>
                     center_y s (mujoco_objects s ! i) (pos_arr ! i)
                       = y_lo s + (y_hi s - y_lo s) * rnd (j + 1))) \<and>
            (ensure_object_boundary_in_range s \<and>
             x_lo s + get_horizontal_radius (mujoco_objects s ! i)
               \<le> x_hi s - get_horizontal_radius (mujoco_objects s ! i) \<longrightarrow>
               x_lo s + get_horizontal_radius (mujoco_objects s ! i)
                 \<le> center_x s (mujoco_objects s ! i) (pos_arr ! i) \<and>
               center_x s (mujoco_objects s ! i) (pos_arr ! i)
                 \<le> x_hi s - get_horizontal_radius (mujoco_objects s ! i)) \<and>
            (ensure_object_boundary_in_range s \<and>
             y_lo s + get_horizontal_radius (mujoco_objects s ! i)
               \<le> y_hi s - get_horizontal_radius (mujoco_objects s ! i) \<longrightarrow>
               y_lo s + get_horizontal_radius (mujoco_objects s ! i)
                 \<le> center_y s (mujoco_objects s ! i) (pos_arr ! i) \<and>
               center_y s (mujoco_objects s ! i) (pos_arr ! i)
                 \<le> y_hi s - get_horizontal_radius (mujoco_objects s ! i)) \<and>
            (\<not> ensure_object_boundary_in_range s \<longrightarrow>
               x_lo s \<le> center_x s (mujoco_objects s ! i) (pos_arr ! i) \<and>
               center_x s (mujoco_objects s ! i) (pos_arr ! i) \<le> x_hi s \<and>
               y_lo s \<le> center_y s (mujoco_objects s ! i) (pos_arr ! i) \<and>
               center_y s (mujoco_objects s ! i) (pos_arr ! i) \<le> y_hi s)"
  proof (intro allI impI)
    fix pos_arr quat_arr k0 k' i
    assume h: "sample s rnd k0 = (Inr (pos_arr, quat_arr), k') \<and> i < length (mujoco_objects s)"
    let ?r = "get_horizontal_radius (mujoco_objects s ! i)"
    let ?cx = "center_x s (mujoco_objects s ! i) (pos_arr ! i)"
    let ?cy = "center_y s (mujoco_objects s ! i) (pos_arr ! i)"
    from sample_centers [OF conjunct1 [OF h] conjunct2 [OF h]] obtain j where
      j: "?cx = fst (sample_x s rnd ?r j)" "?cy = fst (sample_y s rnd ?r (j + 1))" by blast
    note bx = sample_xy_bounds [OF assms, of s ?r j]
    note by1 = sample_xy_bounds [OF assms, of s ?r "j + 1"]
    have 1: "\<exists>j. ?cx = fst (sample_x s rnd ?r j) \<and> ?cy = fst (sample_y s rnd ?r (j + 1)) \<and>
        (\<not> ensure_object_boundary_in_range s \<longrightarrow>
           ?cx = x_lo s + (x_hi s - x_lo s) * rnd j \<and> ?cy = y_lo s + (y_hi s - y_lo s) * rnd (j + 1))"
      using j bx(3) by1(3) by (intro exI [of _ j]) simp
    have 2: "ensure_object_boundary_in_range s \<and> x_lo s + ?r \<le> x_hi s - ?r \<longrightarrow>
        x_lo s + ?r \<le> ?cx \<and> ?cx \<le> x_hi s - ?r"
      using bx(1) unfolding j(1) .
    have 3: "ensure_object_boundary_in_range s \<and> y_lo s + ?r \<le> y_hi s - ?r \<longrightarrow>
        y_lo s + ?r \<le> ?cy \<and> ?cy \<le> y_hi s - ?r"
      using by1(2) unfolding j(2) .
    have 4: "\<not> ensure_object_boundary_in_range s \<longrightarrow>
        x_lo s \<le> ?cx \<and> ?cx \<le> x_hi s \<and> y_lo s \<le> ?cy \<and> ?cy \<le> y_hi s"
      using bx(3) by1(3) unfolding j by blast
    from 1 2 3 4 show "(\<exists>j. ?cx = fst (sample_x s rnd ?r j) \<and> ?cy = fst (sample_y s rnd ?r (j + 1)) \<and>
        (\<not> ensure_object_boundary_in_range s \<longrightarrow>
           ?cx = x_lo s + (x_hi s - x_lo s) * rnd j \<and> ?cy = y_lo s + (y_hi s - y_lo s) * rnd (j + 1))) \<and>
      (ensure_object_boundary_in_range s \<and> x_lo s + ?r \<le> x_hi s - ?r \<longrightarrow>
        x_lo s + ?r \<le> ?cx \<and> ?cx \<le> x_hi s - ?r) \<and>
      (ensure_object_boundary_in_range s \<and> y_lo s + ?r \<le> y_hi s - ?r \<longrightarrow>
        y_lo s + ?r \<le> ?cy \<and> ?cy \<le> y_hi s - ?r) \<and>
      (\<not> ensure_object_boundary_in_range s \<longrightarrow>
        x_lo s \<le> ?cx \<and> ?cx \<le> x_hi s \<and> y_lo s \<le> ?cy \<and> ?cy \<le> y_hi s)"
      by blast
  qed
  from b [of s r k] obj show ?thesis by blast
qed

text \<open>The theorem on a table of size 0.8 for the peg of radius 0.05 placed by the default
  sampler, boundary flag set, and for the thin peg placed by the sampler with the inverted
  x range \<open>[0.2, -0.3]\<close> and the flag off.\<close>

theorem sampled_center_within_range_witness:
  "- 0.4 + 0.05 \<le> center_x (default_sampler [wide_peg]) wide_peg (0, 0, 0.5) \<and>
   center_x (default_sampler [wide_peg]) wide_peg (0, 0, 0.5) \<le> 0.4 - 0.05 \<and>
   - 0.4 + 0.05 \<le> center_y (default_sampler [wide_peg]) wide_peg (0, 0, 0.5) \<and>
   center_y (default_sampler [wide_peg]) wide_peg (0, 0, 0.5) \<le> 0.4 - 0.05 \<and>
   center_x (inverted_sampler [thin_peg]) thin_peg (- 0.05, 0.1, 0.5)
     = - 0.3 + (0.2 - (- 0.3)) * (1 / 2) \<and>
   center_y (inverted_sampler [thin_peg]) thin_peg (- 0.05, 0.1, 0.5) = 0.1 + (0.1 - 0.1) * (1 / 2) \<and>
   - 0.3 \<le> fst (sample_x (inverted_sampler [thin_peg]) half_draws 0.005 0) \<and>
   fst (sample_x (inverted_sampler [thin_peg]) half_draws 0.005 0) \<le> 0.2"
proof -
  let ?d = "default_sampler [wide_peg]"
  let ?i = "inverted_sampler [thin_peg]"
  note td = sampled_center_within_range [OF valid_half_draws, of ?d,
      THEN conjunct2, THEN conjunct2, THEN conjunct2, rule_format, of 0 "[(0, 0, 0.5)]"
      "[(0, 0, 0, 1)]" 4 0]
  have hd: "sample ?d half_draws 0 = (Inr ([(0, 0, 0.5)], [(0, 0, 0, 1)]), 4) \<and>
      0 < length (mujoco_objects ?d)"
    using default_wide_sample by (simp add: default_sampler_simps)
  have ed: "ensure_object_boundary_in_range ?d" by (simp add: default_sampler_simps)
  have xd: "active_x_range ?d = (- 0.4, 0.4)" and yd: "active_y_range ?d = (- 0.4, 0.4)"
    by (simp_all add: active_x_range_def active_y_range_def default_sampler_simps vx_def)
  from td [OF hd] ed xd yd
  have 1: "- 0.4 + 0.05 \<le> center_x ?d wide_peg (0, 0, 0.5) \<and>
      center_x ?d wide_peg (0, 0, 0.5) \<le> 0.4 - 0.05 \<and>
      - 0.4 + 0.05 \<le> center_y ?d wide_peg (0, 0, 0.5) \<and>
      center_y ?d wide_peg (0, 0, 0.5) \<le> 0.4 - 0.05"
    by (simp add: default_sampler_simps wide_peg_simps)
  note ti = sampled_center_within_range [OF valid_half_draws, of ?i,
      THEN conjunct2, THEN conjunct2, THEN conjunct2, rule_format, of 0 "[(- 0.05, 0.1, 0.5)]"
      "[(1, 0, 0, 0)]" 3 0]
  have hi: "sample ?i half_draws 0 = (Inr ([(- 0.05, 0.1, 0.5)], [(1, 0, 0, 0)]), 3) \<and>
      0 < length (mujoco_objects ?i)"
    using inverted_sample by (simp add: inverted_sampler_simps)
  have ei: "\<not> ensure_object_boundary_in_range ?i" by (simp add: inverted_sampler_simps)
  have xi: "active_x_range ?i = (0.2, - 0.3)" and yi: "active_y_range ?i = (0.1, 0.1)"
    by (simp_all add: active_x_range_def active_y_range_def inverted_sampler_simps)
  from ti [OF hi, THEN conjunct1] ei xi yi
  have 2: "center_x ?i thin_peg (- 0.05, 0.1, 0.5) = - 0.3 + (0.2 - (- 0.3)) * (1 / 2) \<and>
      center_y ?i thin_peg (- 0.05, 0.1, 0.5) = 0.1 + (0.1 - 0.1) * (1 / 2)"
    by (auto simp: inverted_sampler_simps half_draws_def)
  from sampled_center_within_range [OF valid_half_draws, of ?i "0.005" 0,
      THEN conjunct2, THEN conjunct2, THEN conjunct1] ei xi
  have 3: "- 0.3 \<le> fst (sample_x ?i half_draws 0.005 0) \<and>
      fst (sample_x ?i half_draws 0.005 0) \<le> 0.2"
    by simp
  from 1 2 3 show ?thesis by blast
qed

text \<open>Without the width condition the property fails: for the x range
  \<open>[-0.01, 0.01]\<close> and the peg of radius 0.05, \<open>sample\<close> places the peg at x = 0, which
  is not in \<open>[0.04, -0.04]\<close>; no value is.\<close>

theorem narrow_region_center_counterexample:
  "valid_rng half_draws \<and> ensure_object_boundary_in_range (narrow_sampler [wide_peg]) \<and>
   active_x_range (narrow_sampler [wide_peg]) = (- 0.01, 0.01) \<and>
   sample (narrow_sampler [wide_peg]) half_draws 0 = (Inr ([(0, 0, 0.5)], [(0, 0, 0, 1)]), 4) \<and>
   \<not> (- 0.01 + get_horizontal_radius wide_peg
        \<le> center_x (narrow_sampler [wide_peg]) wide_peg (0, 0, 0.5) \<and>
      center_x (narrow_sampler [wide_peg]) wide_peg (0, 0, 0.5)
        \<le> 0.01 - get_horizontal_radius wide_peg) \<and>
   \<not> (- 0.01 + get_horizontal_radius wide_peg
        \<le> fst (sample_x (narrow_sampler [wide_peg]) half_draws (get_horizontal_radius wide_peg) 0) \<and>
      fst (sample_x (narrow_sampler [wide_peg]) half_draws (get_horizontal_radius wide_peg) 0)
        \<le> 0.01 - get_horizontal_radius wide_peg)"
  using valid_half_draws narrow_sample_x [of "[wide_peg]"] narrow_wide_sample
  by (simp add: narrow_sampler_simps active_x_range_def wide_peg_simps vx_def)

section \<open>A region narrower than the object\<close>

text \<open>
  Claim C4, as the code has it. A region narrower than twice the radius on some axis
  does not make \<open>sample\<close> fail. With the boundary flag set and draws from \<open>[0, 1)\<close>, a
  radius that exceeds half the width of the active x range makes \<open>sample_x\<close> draw from
  the inverted interval, between \<open>x_max - radius\<close> and \<open>x_min + radius\<close>, and likewise
  \<open>sample_y\<close> on the y axis. With a single descriptor wider than the region on the x, y
  or z axis \<open>sample\<close> returns at the first attempt, its x or y center in that interval.
  Whatever the region, \<open>sample\<close> raises only \<open>RandomizationError\<close>, and only
  when all 5000 candidates of some descriptor, never the first, are rejected by the
  overlap test against the objects placed before it in the call.
\<close>

theorem narrow_region_still_places:
  "(valid_rng rnd \<and> ensure_object_boundary_in_range s \<and> x_hi s - x_lo s < 2 * r \<longrightarrow>
      x_hi s - r \<le> fst (sample_x s rnd r k) \<and> fst (sample_x s rnd r k) \<le> x_lo s + r) \<and>
   (valid_rng rnd \<and> ensure_object_boundary_in_range s \<and> y_hi s - y_lo s < 2 * r \<longrightarrow>
      y_hi s - r \<le> fst (sample_y s rnd r k) \<and> fst (sample_y s rnd r k) \<le> y_lo s + r) \<and>
   (valid_rng rnd \<and> ensure_object_boundary_in_range s \<and> mujoco_objects s = [obj] \<and>
    (x_hi s - x_lo s < 2 * get_horizontal_radius obj \<or>
     y_hi s - y_lo s < 2 * get_horizontal_radius obj \<or>
     z_hi s - z_lo s < 2 * get_horizontal_radius obj) \<longrightarrow>
      (\<exists>pos q. sample s rnd k = (Inr ([pos], [q]), k + 3 + (if z_rotation s then 1 else 0)) \<and>
         (x_hi s - x_lo s < 2 * get_horizontal_radius obj \<longrightarrow>
            x_hi s - get_horizontal_radius obj \<le> center_x s obj pos \<and>
            center_x s obj pos \<le> x_lo s + get_horizontal_radius obj) \<and>
         (y_hi s - y_lo s < 2 * get_horizontal_radius obj \<longrightarrow>
            y_hi s - get_horizontal_radius obj \<le> center_y s obj pos \<and>
            center_y s obj pos \<le> y_lo s + get_horizontal_radius obj))) \<and>
   (\<forall>e k'. sample s rnd k = (Inl e, k') \<longrightarrow>
      e = RandomizationError \<and>
      (\<exists>n placed k0. 0 < n \<and> n < length (mujoco_objects s) \<and> length placed = n \<and>
         map snd placed = map get_horizontal_radius (take n (mujoco_objects s)) \<and>
         (\<forall>i<5000. \<not> location_valid (fst (candidate s rnd (mujoco_objects s ! n) (k0 + 3 * i)))
                      (get_horizontal_radius (mujoco_objects s ! n)) placed) \<and>
         k' = k0 + 3 * 5000))"
proof -
  have invx: "\<And>r k. valid_rng rnd \<and> ensure_object_boundary_in_range s \<and> x_hi s - x_lo s < 2 * r \<longrightarrow>
      x_hi s - r \<le> fst (sample_x s rnd r k) \<and> fst (sample_x s rnd r k) \<le> x_lo s + r"
  proof
    fix r k
    assume h: "valid_rng rnd \<and> ensure_object_boundary_in_range s \<and> x_hi s - x_lo s < 2 * r"
    then have u: "0 \<le> rnd k" "rnd k < 1" by (simp_all add: valid_rng_def)
    have i: "x_hi s - r \<le> x_lo s + r" using h by linarith
    have x: "fst (sample_x s rnd r k) = (x_lo s + r) + ((x_hi s - r) - (x_lo s + r)) * rnd k"
      using h by (simp add: sample_x_eq shrink_def)
    from affine_between_inverted [OF u i] x
    show "x_hi s - r \<le> fst (sample_x s rnd r k) \<and> fst (sample_x s rnd r k) \<le> x_lo s + r"
      by simp
  qed
  have invy: "\<And>r k. valid_rng rnd \<and> ensure_object_boundary_in_range s \<and> y_hi s - y_lo s < 2 * r \<longrightarrow>
      y_hi s - r \<le> fst (sample_y s rnd r k) \<and> fst (sample_y s rnd r k) \<le> y_lo s + r"
  proof
    fix r k
    assume h: "valid_rng rnd \<and> ensure_object_boundary_in_range s \<and> y_hi s - y_lo s < 2 * r"
    then have u: "0 \<le> rnd k" "rnd k < 1" by (simp_all add: valid_rng_def)
    have i: "y_hi s - r \<le> y_lo s + r" using h by linarith
    have y: "fst (sample_y s rnd r k) = (y_lo s + r) + ((y_hi s - r) - (y_lo s + r)) * rnd k"
      using h by (simp add: sample_y_eq shrink_def)
    from affine_between_inverted [OF u i] y
    show "y_hi s - r \<le> fst (sample_y s rnd r k) \<and> fst (sample_y s rnd r k) \<le> y_lo s + r"
      by simp
  qed
  have single: "valid_rng rnd \<and> ensure_object_boundary_in_range s \<and> mujoco_objects s = [obj] \<and>
    (x_hi s - x_lo s < 2 * get_horizontal_radius obj \<or>
     y_hi s - y_lo s < 2 * get_horizontal_radius obj \<or>
     z_hi s - z_lo s < 2 * get_horizontal_radius obj) \<longrightarrow>
      (\<exists>pos q. sample s rnd k = (Inr ([pos], [q]), k + 3 + (if z_rotation s then 1 else 0)) \<and>
         (x_hi s - x_lo s < 2 * get_horizontal_radius obj \<longrightarrow>
            x_hi s - get_horizontal_radius obj \<le> center_x s obj pos \<and>
            center_x s obj pos \<le> x_lo s + get_horizontal_radius obj) \<and>
         (y_hi s - y_lo s < 2 * get_horizontal_radius obj \<longrightarrow>
            y_hi s - get_horizontal_radius obj \<le> center_y s obj pos \<and>
            center_y s obj pos \<le> y_lo s + get_horizontal_radius obj))"
  proof
    assume h: "valid_rng rnd \<and> ensure_object_boundary_in_range s \<and> mujoco_objects s = [obj] \<and>
      (x_hi s - x_lo s < 2 * get_horizontal_radius obj \<or>
       y_hi s - y_lo s < 2 * get_horizontal_radius obj \<or>
       z_hi s - z_lo s < 2 * get_horizontal_radius obj)"
    let ?r = "get_horizontal_radius obj"
    let ?pos = "fst (candidate s rnd obj k)"
    from h have m: "mujoco_objects s = [obj]" by simp
    have bx: "x_hi s - x_lo s < 2 * ?r \<longrightarrow>
        x_hi s - ?r \<le> center_x s obj ?pos \<and> center_x s obj ?pos \<le> x_lo s + ?r"
      using invx [of ?r k] h by (simp add: candidate_vx)
    have by1: "y_hi s - y_lo s < 2 * ?r \<longrightarrow>
        y_hi s - ?r \<le> center_y s obj ?pos \<and> center_y s obj ?pos \<le> y_lo s + ?r"
      using invy [of ?r "k + 1"] h by (simp add: candidate_vy)
    have "sample s rnd k =
        (Inr ([?pos], [fst (sample_quat s rnd (k + 3))]), k + 3 + (if z_rotation s then 1 else 0))"
      using sample_singleton [OF m, of rnd k] sample_quat_snd [of s rnd "k + 3"] by simp
    with bx by1 show "\<exists>pos q. sample s rnd k
          = (Inr ([pos], [q]), k + 3 + (if z_rotation s then 1 else 0)) \<and>
         (x_hi s - x_lo s < 2 * ?r \<longrightarrow>
            x_hi s - ?r \<le> center_x s obj pos \<and> center_x s obj pos \<le> x_lo s + ?r) \<and>
         (y_hi s - y_lo s < 2 * ?r \<longrightarrow>
            y_hi s - ?r \<le> center_y s obj pos \<and> center_y s obj pos \<le> y_lo s + ?r)"
      by (intro exI [of _ ?pos] exI [of _ "fst (sample_quat s rnd (k + 3))"]) blast
  qed
  have cause: "\<forall>e k'. sample s rnd k = (Inl e, k') \<longrightarrow>
      e = RandomizationError \<and>
      (\<exists>n placed k0. 0 < n \<and> n < length (mujoco_objects s) \<and> length placed = n \<and>
         map snd placed = map get_horizontal_radius (take n (mujoco_objects s)) \<and>
         (\<forall>i<5000. \<not> location_valid (fst (candidate s rnd (mujoco_objects s ! n) (k0 + 3 * i)))
                      (get_horizontal_radius (mujoco_objects s ! n)) placed) \<and>
         k' = k0 + 3 * 5000)"
    using sample_Inl_cause [of s rnd k] by blast
  from invx [of r k] invy [of r k] single cause show ?thesis by blast
qed

text \<open>The theorem for the x range \<open>[-0.01, 0.01]\<close> and the peg of radius 0.05: one peg is
  placed at once with its x center in \<open>[-0.04, 0.04]\<close>; with two pegs and every draw 1/2
  all candidates fall on the same spot, and the error comes after the first peg was
  placed and 5000 candidates of the second were rejected.\<close>

theorem narrow_region_still_places_witness:
  "(0.01 - 0.05 \<le> fst (sample_x (narrow_sampler [wide_peg]) half_draws 0.05 0) \<and>
    fst (sample_x (narrow_sampler [wide_peg]) half_draws 0.05 0) \<le> - 0.01 + 0.05) \<and>
   (0.4 - 0.5 \<le> fst (sample_y (narrow_sampler [wide_peg]) half_draws 0.5 1) \<and>
    fst (sample_y (narrow_sampler [wide_peg]) half_draws 0.5 1) \<le> - 0.4 + 0.5) \<and>
   (\<exists>pos q. sample (narrow_sampler [wide_peg]) half_draws 0 = (Inr ([pos], [q]), 4) \<and>
      0.01 - 0.05 \<le> vx pos \<and> vx pos \<le> - 0.01 + 0.05) \<and>
   sample (narrow_sampler [wide_peg, wide_peg]) half_draws 0 = (Inl RandomizationError, 15004) \<and>
   (\<exists>n placed k0. 0 < n \<and> n < length [wide_peg, wide_peg] \<and> length placed = n \<and>
      (\<forall>i<5000. \<not> location_valid
          (fst (candidate (narrow_sampler [wide_peg, wide_peg]) half_draws
                 ([wide_peg, wide_peg] ! n) (k0 + 3 * i)))
          (get_horizontal_radius ([wide_peg, wide_peg] ! n)) placed) \<and>
      15004 = k0 + 3 * 5000)"
proof -
  let ?s = "narrow_sampler [wide_peg]"
  let ?p = "narrow_sampler [wide_peg, wide_peg]"
  have x: "active_x_range ?s = (- 0.01, 0.01)"
    by (simp add: active_x_range_def narrow_sampler_simps)
  have h: "valid_rng half_draws \<and> ensure_object_boundary_in_range ?s \<and>
      mujoco_objects ?s = [wide_peg] \<and>
      (x_hi ?s - x_lo ?s < 2 * get_horizontal_radius wide_peg \<or>
       y_hi ?s - y_lo ?s < 2 * get_horizontal_radius wide_peg \<or>
       z_hi ?s - z_lo ?s < 2 * get_horizontal_radius wide_peg)"
    using valid_half_draws by (simp add: x wide_peg_simps narrow_sampler_simps)
  have y: "active_y_range ?s = (- 0.4, 0.4)"
    by (simp add: active_y_range_def narrow_sampler_simps vx_def)
  have hx: "valid_rng half_draws \<and> ensure_object_boundary_in_range ?s \<and>
      x_hi ?s - x_lo ?s < 2 * 0.05"
    using valid_half_draws by (simp add: x narrow_sampler_simps)
  have hy: "valid_rng half_draws \<and> ensure_object_boundary_in_range ?s \<and>
      y_hi ?s - y_lo ?s < 2 * 0.5"
    using valid_half_draws by (simp add: y narrow_sampler_simps)
  from narrow_region_still_places [where rnd = half_draws and s = ?s and r = "0.05" and k = 0,
      THEN conjunct1, THEN mp, OF hx]
  have a: "0.01 - 0.05 \<le> fst (sample_x ?s half_draws 0.05 0) \<and>
      fst (sample_x ?s half_draws 0.05 0) \<le> - 0.01 + 0.05"
    by (simp add: x)
  from narrow_region_still_places [where rnd = half_draws and s = ?s and r = "0.5" and k = 1,
      THEN conjunct2, THEN conjunct1, THEN mp, OF hy]
  have b: "0.4 - 0.5 \<le> fst (sample_y ?s half_draws 0.5 1) \<and>
      fst (sample_y ?s half_draws 0.5 1) \<le> - 0.4 + 0.5"
    by (simp add: y)
  from narrow_region_still_places [of half_draws ?s _ 0 wide_peg, THEN conjunct2, THEN conjunct2,
      THEN conjunct1, THEN mp, OF h]
  obtain pos q where pq:
    "sample ?s half_draws 0 = (Inr ([pos], [q]), 0 + 3 + (if z_rotation ?s then 1 else 0))"
    "x_hi ?s - x_lo ?s < 2 * get_horizontal_radius wide_peg \<longrightarrow>
       x_hi ?s - get_horizontal_radius wide_peg \<le> center_x ?s wide_peg pos \<and>
       center_x ?s wide_peg pos \<le> x_lo ?s + get_horizontal_radius wide_peg"
    by blast
  then have 1: "\<exists>pos q. sample ?s half_draws 0 = (Inr ([pos], [q]), 4) \<and>
      0.01 - 0.05 \<le> vx pos \<and> vx pos \<le> - 0.01 + 0.05"
    by (intro exI [of _ pos] exI [of _ q]) (simp add: x wide_peg_simps narrow_sampler_simps vx_def)
  from narrow_region_still_places [of half_draws ?p _ 0, THEN conjunct2, THEN conjunct2,
      THEN conjunct2, rule_format, OF narrow_pair_fails]
  have 2: "\<exists>n placed k0. 0 < n \<and> n < length [wide_peg, wide_peg] \<and> length placed = n \<and>
      (\<forall>i<5000. \<not> location_valid
          (fst (candidate ?p half_draws ([wide_peg, wide_peg] ! n) (k0 + 3 * i)))
          (get_horizontal_radius ([wide_peg, wide_peg] ! n)) placed) \<and>
      15004 = k0 + 3 * 5000"
    by (simp add: narrow_sampler_simps) blast
  from a b 1 2 narrow_pair_fails show ?thesis by blast
qed

text \<open>The example of the claim does not raise: with the x range \<open>[-0.01, 0.01]\<close>, the
  boundary flag set and one peg of radius 0.05, \<open>sample\<close> returns a placement after
  four draws.\<close>

theorem narrow_region_counterexample:
  "valid_rng half_draws \<and>
   x_range (narrow_sampler [wide_peg]) = Some (- 0.01, 0.01) \<and>
   ensure_object_boundary_in_range (narrow_sampler [wide_peg]) \<and>
   get_horizontal_radius wide_peg = 0.05 \<and>
   sample (narrow_sampler [wide_peg]) half_draws 0 = (Inr ([(0, 0, 0.5)], [(0, 0, 0, 1)]), 4)"
  using valid_half_draws narrow_wide_sample
  by (simp add: narrow_sampler_simps wide_peg_simps)


section \<open>Default ranges\<close>




section \<open>Orientations\<close>



section \<open>The builder of the evaluation grid\<close>

text \<open>
  Claim C7, on the code. The claim is about the deterministic grid sampler: a cycle of
  length \<open>L\<close>, index \<open>t\<close> mapped to the base grid point \<open>t mod L\<close>, so that \<open>i\<close> and
  \<open>i + L\<close> agree. The code that is to build that sampler never does: with \<open>eval_mode\<close> set
  and perturbation off, for the bounds of \<open>_grid_bounds_for_eval_mode\<close> and any grid
  helper, the call ends in \<open>NameError\<close>, no draw consumed; and for all arguments the call
  ends in an error. No sampler is installed whose indices could be compared.
\<close>

theorem eval_mode_builder_raises:
  "get_placement_initializer_for_eval_mode grid_of grid_bounds_for_eval_mode True False rnd k
     = (Inl NameError, k) \<and>
   (\<exists>e k'. get_placement_initializer_for_eval_mode grid_of bnds eval_mode perturb_evals rnd k
      = (Inl e, k'))"
  using builder_NameError [of grid_of grid_bounds_for_eval_mode rnd k]
    builder_never_returns [of grid_of bnds eval_mode perturb_evals rnd k]
  by blast

section \<open>Malformed configurations\<close>




section \<open>Composition and placement stay aligned\<close>

text \<open>
  Claim C9. \<open>merge_objects\<close>, run by \<open>PegsTask\<close>, goes through the dictionary in
  insertion order: the i-th object node is the collision fragment of the i-th entry with
  one joint appended, named after the entry, of type free and damping 0.0005; the nodes
  are appended to the world body in that order; \<open>max_horizontal_radius\<close> is the maximum
  of 0 and all horizontal radii; and the sampler is configured with the descriptors in the
  same order. \<open>place_objects\<close> then either passes on the error of \<open>sample\<close>, or writes
  the i-th position as \<open>pos\<close> and the i-th orientation as \<open>quat\<close> on the i-th object
  node, the i-th position being a candidate drawn for the i-th descriptor; nothing else
  of the node and nothing of the world body changes.
\<close>

theorem merge_and_place_aligned:
  assumes "t = PegsTask merge_asset t0 mujoco_objs init"
  shows "objects t = map fragment mujoco_objs \<and>
         (\<forall>i<length mujoco_objs.
            children (objects t ! i) =
              children (get_collision (snd (mujoco_objs ! i)) (fst (mujoco_objs ! i)))
                @ [joint (fst (mujoco_objs ! i)) ''free'' ''0.0005'']) \<and>
         worldbody t = worldbody t0 @ map ObjectRef [0..<length mujoco_objs] \<and>
         max_horizontal_radius t =
           Max (insert 0 ((\<lambda>no. get_horizontal_radius (snd no)) ` set mujoco_objs)) \<and>
         n_objects t = length mujoco_objs \<and>
         mujoco_objects (initializer t) = map snd mujoco_objs \<and>
         (\<forall>e k'. sample (initializer t) rnd k = (Inl e, k') \<longrightarrow>
            place_objects array_to_string rnd t k = (Inl e, k')) \<and>
         (\<forall>pos_arr quat_arr k'. sample (initializer t) rnd k = (Inr (pos_arr, quat_arr), k') \<longrightarrow>
            length pos_arr = length mujoco_objs \<and> length quat_arr = length mujoco_objs \<and>
            (\<exists>t'. place_objects array_to_string rnd t k = (Inr t', k') \<and>
               length (objects t') = length mujoco_objs \<and> worldbody t' = worldbody t \<and>
               (\<forall>i<length mujoco_objs.
                  objects t' ! i =
                    xml_set (xml_set (objects t ! i) ''pos''
                               (array_to_string (vec_list (pos_arr ! i))))
                      ''quat'' (array_to_string (quat_list (quat_arr ! i))) \<and>
                  xml_get (objects t' ! i) ''pos'' = Some (array_to_string (vec_list (pos_arr ! i))) \<and>
                  xml_get (objects t' ! i) ''quat'' = Some (array_to_string (quat_list (quat_arr ! i))) \<and>
                  children (objects t' ! i) = children (objects t ! i) \<and>
                  (\<exists>j. pos_arr ! i = fst (candidate (initializer t) rnd (snd (mujoco_objs ! i)) j)))))"
proof -
  note f = PegsTask_fields [of merge_asset t0 mujoco_objs init, folded assms]
  have len: "length (mujoco_objects (initializer t)) = length (objects t)"
    by (simp add: f)
  have 1: "\<forall>i<length mujoco_objs.
            children (objects t ! i) =
              children (get_collision (snd (mujoco_objs ! i)) (fst (mujoco_objs ! i)))
                @ [joint (fst (mujoco_objs ! i)) ''free'' ''0.0005'']"
    by (simp add: f fragment_def xml_append_def)
  have 2: "\<forall>e k'. sample (initializer t) rnd k = (Inl e, k') \<longrightarrow>
            place_objects array_to_string rnd t k = (Inl e, k')"
    by (simp add: place_objects_error)
  have 3: "\<forall>pos_arr quat_arr k'. sample (initializer t) rnd k = (Inr (pos_arr, quat_arr), k') \<longrightarrow>
            length pos_arr = length mujoco_objs \<and> length quat_arr = length mujoco_objs \<and>
            (\<exists>t'. place_objects array_to_string rnd t k = (Inr t', k') \<and>
               length (objects t') = length mujoco_objs \<and> worldbody t' = worldbody t \<and>
               (\<forall>i<length mujoco_objs.
                  objects t' ! i =
                    xml_set (xml_set (objects t ! i) ''pos''
                               (array_to_string (vec_list (pos_arr ! i))))
                      ''quat'' (array_to_string (quat_list (quat_arr ! i))) \<and>
                  xml_get (objects t' ! i) ''pos'' = Some (array_to_string (vec_list (pos_arr ! i))) \<and>
                  xml_get (objects t' ! i) ''quat'' = Some (array_to_string (quat_list (quat_arr ! i))) \<and>
                  children (objects t' ! i) = children (objects t ! i) \<and>
                  (\<exists>j. pos_arr ! i = fst (candidate (initializer t) rnd (snd (mujoco_objs ! i)) j))))"
  proof (intro allI impI)
    fix pos_arr quat_arr k'
    assume s: "sample (initializer t) rnd k = (Inr (pos_arr, quat_arr), k')"
    have lp: "length pos_arr = length mujoco_objs" and lq: "length quat_arr = length mujoco_objs"
      using sample_Inr(1,2) [OF s] by (simp_all add: f)
    from place_objects_aligned [OF len s, of array_to_string]
    obtain t' where t': "place_objects array_to_string rnd t k = (Inr t', k')"
      "length (objects t') = length (objects t)" "worldbody t' = worldbody t"
      "\<forall>i<length (objects t). objects t' ! i =
               xml_set (xml_set (objects t ! i) ''pos'' (array_to_string (vec_list (pos_arr ! i))))
                 ''quat'' (array_to_string (quat_list (quat_arr ! i)))"
      by blast
    have "\<forall>i<length mujoco_objs.
                  objects t' ! i =
                    xml_set (xml_set (objects t ! i) ''pos''
                               (array_to_string (vec_list (pos_arr ! i))))
                      ''quat'' (array_to_string (quat_list (quat_arr ! i))) \<and>
                  xml_get (objects t' ! i) ''pos'' = Some (array_to_string (vec_list (pos_arr ! i))) \<and>
                  xml_get (objects t' ! i) ''quat'' = Some (array_to_string (quat_list (quat_arr ! i))) \<and>
                  children (objects t' ! i) = children (objects t ! i) \<and>
                  (\<exists>j. pos_arr ! i = fst (candidate (initializer t) rnd (snd (mujoco_objs ! i)) j))"
    proof (intro allI impI)
      fix i assume i: "i < length mujoco_objs"
      then have e: "objects t' ! i =
                    xml_set (xml_set (objects t ! i) ''pos''
                               (array_to_string (vec_list (pos_arr ! i))))
                      ''quat'' (array_to_string (quat_list (quat_arr ! i)))"
        using t'(4) by (simp add: f)
      have "i < length (mujoco_objects (initializer t))" using i by (simp add: f)
      from sample_Inr(3) [OF s this] i
      have c: "\<exists>j. pos_arr ! i = fst (candidate (initializer t) rnd (snd (mujoco_objs ! i)) j)"
        by (auto simp: f)
      show "objects t' ! i =
                    xml_set (xml_set (objects t ! i) ''pos''
                               (array_to_string (vec_list (pos_arr ! i))))
                      ''quat'' (array_to_string (quat_list (quat_arr ! i))) \<and>
                  xml_get (objects t' ! i) ''pos'' = Some (array_to_string (vec_list (pos_arr ! i))) \<and>
                  xml_get (objects t' ! i) ''quat'' = Some (array_to_string (quat_list (quat_arr ! i))) \<and>
                  children (objects t' ! i) = children (objects t ! i) \<and>
                  (\<exists>j. pos_arr ! i = fst (candidate (initializer t) rnd (snd (mujoco_objs ! i)) j))"
        using c by (simp add: e xml_get_set_same xml_get_set_other children_xml_set)
    qed
    with t' lp lq show "length pos_arr = length mujoco_objs \<and> length quat_arr = length mujoco_objs \<and>
            (\<exists>t'. place_objects array_to_string rnd t k = (Inr t', k') \<and>
               length (objects t') = length mujoco_objs \<and> worldbody t' = worldbody t \<and>
               (\<forall>i<length mujoco_objs.
                  objects t' ! i =
                    xml_set (xml_set (objects t ! i) ''pos''
                               (array_to_string (vec_list (pos_arr ! i))))
                      ''quat'' (array_to_string (quat_list (quat_arr ! i))) \<and>
                  xml_get (objects t' ! i) ''pos'' = Some (array_to_string (vec_list (pos_arr ! i))) \<and>
                  xml_get (objects t' ! i) ''quat'' = Some (array_to_string (quat_list (quat_arr ! i))) \<and>
                  children (objects t' ! i) = children (objects t ! i) \<and>
                  (\<exists>j. pos_arr ! i = fst (candidate (initializer t) rnd (snd (mujoco_objs ! i)) j))))"
      by (auto simp: f)
  qed
  from f 1 2 3 show ?thesis by blast
qed

text \<open>The theorem for two thin pegs named \<open>block1\<close> and \<open>block2\<close> merged into an empty
  world and placed with the stacking draws, for any rendering of arrays as strings.\<close>

theorem merge_and_place_aligned_witness:
  "\<forall>array_to_string. \<exists>t'.
     place_objects array_to_string stacking_draws
       (PegsTask keep_asset empty_world [(''block1'', thin_peg), (''block2'', thin_peg)] None) 0
       = (Inr t', 8) \<and>
     xml_get (objects t' ! 0) ''pos'' = Some (array_to_string [0, 0, 0.01]) \<and>
     xml_get (objects t' ! 1) ''pos'' = Some (array_to_string [0, 0, 0.03]) \<and>
     xml_get (objects t' ! 1) ''quat'' = Some (array_to_string [1, 0, 0, 0]) \<and>
     children (objects t' ! 1) = [joint ''block2'' ''free'' ''0.0005'']"
proof
  fix array_to_string :: "real list \<Rightarrow> string"
  let ?ods = "[(''block1'', thin_peg), (''block2'', thin_peg)]"
  let ?t = "PegsTask keep_asset empty_world ?ods None"
  have s: "sample (initializer ?t) stacking_draws 0 =
     (Inr ([(0, 0, 0.01), (0, 0, 0.03)], [(1, 0, 0, 0), (1, 0, 0, 0)]), 8)"
    unfolding two_pegs_initializer by (rule stacking_sample)
  note m = merge_and_place_aligned [OF refl, of keep_asset empty_world ?ods None
      stacking_draws 0 array_to_string]
  have c: "children (objects ?t ! 1) = [joint ''block2'' ''free'' ''0.0005'']"
    using m [THEN conjunct2, THEN conjunct1, rule_format, of 1] by (simp add: thin_peg_def)
  from m have "\<forall>pos_arr quat_arr k'.
      sample (initializer ?t) stacking_draws 0 = (Inr (pos_arr, quat_arr), k') \<longrightarrow>
      (\<exists>t'. place_objects array_to_string stacking_draws ?t 0 = (Inr t', k') \<and>
         (\<forall>i<length ?ods.
            xml_get (objects t' ! i) ''pos'' = Some (array_to_string (vec_list (pos_arr ! i))) \<and>
            xml_get (objects t' ! i) ''quat'' = Some (array_to_string (quat_list (quat_arr ! i))) \<and>
            children (objects t' ! i) = children (objects ?t ! i)))"
    by blast
  from this [rule_format, OF s] obtain t' where t':
    "place_objects array_to_string stacking_draws ?t 0 = (Inr t', 8)"
    "\<forall>i<length ?ods.
        xml_get (objects t' ! i) ''pos''
          = Some (array_to_string (vec_list ([(0, 0, 0.01), (0, 0, 0.03)] ! i))) \<and>
        xml_get (objects t' ! i) ''quat''
          = Some (array_to_string (quat_list ([(1, 0, 0, 0), (1, 0, 0, 0)] ! i))) \<and>
        children (objects t' ! i) = children (objects ?t ! i)"
    by blast
  from t'(2) [rule_format, of 0] t'(2) [rule_format, of 1] c t'(1)
  show "\<exists>t'. place_objects array_to_string stacking_draws ?t 0 = (Inr t', 8) \<and>
     xml_get (objects t' ! 0) ''pos'' = Some (array_to_string [0, 0, 0.01]) \<and>
     xml_get (objects t' ! 1) ''pos'' = Some (array_to_string [0, 0, 0.03]) \<and>
     xml_get (objects t' ! 1) ''quat'' = Some (array_to_string [1, 0, 0, 0]) \<and>
     children (objects t' ! 1) = [joint ''block2'' ''free'' ''0.0005'']"
    by (intro exI [of _ t']) (simp add: vec_list_def quat_list_def vx_def vy_def vz_def)
qed

section \<open>A single object\<close>

text \<open>
  Claim C10. A sampler configured with exactly one descriptor succeeds at the first
  attempt, for every configuration of the ranges, either value of the flags and every
  stream of draws: the result is the first candidate with the orientation drawn after it,
  and three draws are consumed, or four with z-rotation. No error is raised.
\<close>

theorem single_object_first_attempt:
  "mujoco_objects s = [obj] \<Longrightarrow>
     sample s rnd k =
       (Inr ([fst (candidate s rnd obj k)], [fst (sample_quat s rnd (k + 3))]),
        k + 3 + (if z_rotation s then 1 else 0)) \<and>
     location_valid (fst (candidate s rnd obj k)) (get_horizontal_radius obj) []"
  using sample_singleton [of s obj rnd k] sample_quat_snd [of s rnd "k + 3"]
  by simp

text \<open>The theorem for one peg of radius 0.05 under the default sampler.\<close>

theorem single_object_first_attempt_witness:
  "sample (default_sampler [wide_peg]) half_draws 0 = (Inr ([(0, 0, 0.5)], [(0, 0, 0, 1)]), 4)"
proof -
  have m: "mujoco_objects (default_sampler [wide_peg]) = [wide_peg]"
    by (simp add: default_sampler_simps)
  have z: "z_rotation (default_sampler [wide_peg])" by (simp add: default_sampler_simps)
  from single_object_first_attempt [OF m, of half_draws 0] z
  show ?thesis by (simp add: default_wide_candidate half_turn_quat)
qed

end
